theory Spec2Isabelle
  imports Main "HOL-Library.Word" "HOL-Library.Char_ord" "HOL-Library.List_Lexorder"
begin

section \<open>The model: the password vault of the Everything Black browser\<close>

text \<open>
  The vault consists of three classes: \<open>PasswordEncryption\<close> (encryption.js),
  \<open>PasswordDatabase\<close> (database.js) and \<open>PasswordManager\<close>, which owns one instance of
  each. Methods become functions that take the object's state and return the new one;
  a thrown exception is the \<open>Inl\<close> branch of a sum.

  A JavaScript string is a \<open>string\<close>, a Node \<open>Buffer\<close> a list of bytes.
\<close>

type_synonym bytes = "8 word list"

subsection \<open>What Node provides\<close>

text \<open>
  The classes call Node's \<open>crypto\<close> module and the \<open>Buffer\<close> codecs. These are not code of
  the repository; the model takes them as one record of functions.
  \<^item> \<open>pbkdf2Sync password salt iterations keylen\<close> (digest fixed to sha256 by the caller);
  \<^item> \<open>gcm_encrypt key iv plaintext\<close> is \<open>createCipheriv\<close>, \<open>update\<close>, \<open>final\<close>,
    \<open>getAuthTag\<close>: it returns the ciphertext and the tag;
  \<^item> \<open>gcm_decrypt key iv tag ciphertext\<close> is \<open>createDecipheriv\<close>, \<open>setAuthTag\<close>,
    \<open>update\<close>, \<open>final\<close>; \<open>None\<close> stands for any exception these raise (bad nonce or tag
    length, failed authentication);
  \<^item> the codecs \<open>Buffer.from(s, enc)\<close> and \<open>buf.toString(enc)\<close> for utf8, base64 and hex;
    none of them raises.
\<close>

record platform =
  pbkdf2Sync :: "string \<Rightarrow> bytes \<Rightarrow> nat \<Rightarrow> nat \<Rightarrow> bytes"
  gcm_encrypt :: "bytes \<Rightarrow> bytes \<Rightarrow> bytes \<Rightarrow> bytes \<times> bytes"
  gcm_decrypt :: "bytes \<Rightarrow> bytes \<Rightarrow> bytes \<Rightarrow> bytes \<Rightarrow> bytes option"
  utf8_encode :: "string \<Rightarrow> bytes"
  utf8_decode :: "bytes \<Rightarrow> string"
  base64_encode :: "bytes \<Rightarrow> string"
  base64_decode :: "string \<Rightarrow> bytes"
  hex_encode :: "bytes \<Rightarrow> string"
  hex_decode :: "string \<Rightarrow> bytes"

text \<open>
  \<open>crypto.randomBytes(n)\<close>: the entropy of one call is a stream of bytes, of which the
  first \<open>n\<close> are taken. \<open>skip n rnd\<close> is the stream left for the next call.
\<close>

type_synonym entropy = "nat \<Rightarrow> 8 word"

definition randomBytes :: "entropy \<Rightarrow> nat \<Rightarrow> bytes" where
  "randomBytes rnd n = map rnd [0..<n]"

definition skip :: "nat \<Rightarrow> entropy \<Rightarrow> entropy" where
  "skip n rnd = (\<lambda>i. rnd (n + i))"

subsection \<open>Exceptions and error results\<close>

text \<open>
  \<open>exn\<close> lists what the modelled code can throw. \<open>error\<close> is the \<open>error\<close> field of a
  manager result \<open>{success: false, error: ...}\<close>: one constructor for each message the
  manager writes itself, and \<open>Thrown\<close> for the message of an exception it caught.
\<close>

datatype exn =
    NotInitialized      \<comment> \<open>'Encryption not initialized. Call initialize() first.'\<close>
  | CryptoFailure       \<comment> \<open>raised inside createDecipheriv / setAuthTag / final\<close>
  | RangeError          \<comment> \<open>crypto.randomInt with an empty range\<close>
  | TypeError           \<comment> \<open>an undefined argument where a string is needed\<close>
  | ConstraintViolation \<comment> \<open>SQLite NOT NULL constraint\<close>

datatype error =
    VaultLocked              \<comment> \<open>'Password manager is locked'\<close>
  | NoMasterPassword         \<comment> \<open>'No master password set'\<close>
  | IncorrectMasterPassword  \<comment> \<open>'Incorrect master password'\<close>
  | TooWeak                  \<comment> \<open>'Password is too weak. Please use a stronger password.'\<close>
  | NotFound                 \<comment> \<open>'Password not found'\<close>
  | Thrown exn               \<comment> \<open>error.message of a caught exception\<close>

subsection \<open>encryption.js: class PasswordEncryption\<close>

text \<open>The constructor's constants; no method assigns them again.\<close>

definition iterations :: nat where "iterations = 100000"
definition keyLength :: nat where "keyLength = 32"
definition saltLength :: nat where "saltLength = 32"
definition ivLength :: nat where "ivLength = 16"
definition tagLength :: nat where "tagLength = 16"

text \<open>The two mutable fields; \<open>None\<close> is JavaScript's \<open>null\<close>.\<close>

record encryption =
  masterKey :: "bytes option"
  salt :: "bytes option"

definition new_encryption :: encryption where
  "new_encryption = \<lparr>masterKey = None, salt = None\<rparr>"

definition generateSalt :: "entropy \<Rightarrow> bytes" where
  "generateSalt rnd = randomBytes rnd saltLength"

definition generateIV :: "entropy \<Rightarrow> bytes" where
  "generateIV rnd = randomBytes rnd ivLength"

definition deriveKey :: "platform \<Rightarrow> string \<Rightarrow> bytes \<Rightarrow> bytes" where
  "deriveKey P masterPassword s = pbkdf2Sync P masterPassword s iterations keyLength"

definition encrypt :: "platform \<Rightarrow> encryption \<Rightarrow> entropy \<Rightarrow> string \<Rightarrow> exn + string" where
  "encrypt P e rnd plaintext =
     (case masterKey e of
        None \<Rightarrow> Inl NotInitialized
      | Some key \<Rightarrow>
          let iv = generateIV rnd;
              (encrypted, authTag) = gcm_encrypt P key iv (utf8_encode P plaintext);
              combined = iv @ authTag @ encrypted
          in Inr (base64_encode P combined))"

text \<open>\<open>Buffer.slice(a, b)\<close> clamps both ends to the buffer, as \<open>take\<close> and \<open>drop\<close> do.\<close>

definition slice :: "bytes \<Rightarrow> nat \<Rightarrow> nat \<Rightarrow> bytes" where
  "slice buf a b = take (b - a) (drop a buf)"

definition decrypt :: "platform \<Rightarrow> encryption \<Rightarrow> string \<Rightarrow> exn + string" where
  "decrypt P e encryptedData =
     (case masterKey e of
        None \<Rightarrow> Inl NotInitialized
      | Some key \<Rightarrow>
          let combined = base64_decode P encryptedData;
              iv = slice combined 0 ivLength;
              authTag = slice combined ivLength (ivLength + tagLength);
              encrypted = drop (ivLength + tagLength) combined
          in (case gcm_decrypt P key iv authTag encrypted of
                None \<Rightarrow> Inl CryptoFailure
              | Some decrypted \<Rightarrow> Inr (utf8_decode P decrypted)))"

definition verificationData :: string where
  "verificationData = ''EB_PASSWORD_MANAGER_VERIFICATION''"

text \<open>
  \<open>initialize(masterPassword, salt = null)\<close>. The manager calls it without a salt; the
  result is the new state and the settings object \<open>(salt, verificationHash, iterations)\<close>.
  The salt takes the first 32 bytes of entropy, the nonce of \<open>encrypt\<close> the next 16.
\<close>

definition initialize ::
  "platform \<Rightarrow> encryption \<Rightarrow> entropy \<Rightarrow> string \<Rightarrow> bytes option
     \<Rightarrow> exn + (encryption \<times> string \<times> string \<times> nat)" where
  "initialize P e rnd masterPassword salt0 =
     (let (s, rnd') = (case salt0 of None \<Rightarrow> (generateSalt rnd, skip saltLength rnd)
                                    | Some s \<Rightarrow> (s, rnd));
          e' = e\<lparr>salt := Some s, masterKey := Some (deriveKey P masterPassword s)\<rparr>
      in case encrypt P e' rnd' verificationData of
           Inl x \<Rightarrow> Inl x
         | Inr encrypted \<Rightarrow> Inr (e', hex_encode P s, encrypted, iterations))"

text \<open>
  \<open>verifyMasterPassword\<close> assigns \<open>salt\<close> and \<open>masterKey\<close> first and then tries the
  verification blob; its \<open>catch\<close> turns every exception into \<open>false\<close>. Neither branch
  assigns the fields again, so the returned state holds the key derived from the
  candidate password whatever the answer is.
\<close>

definition verifyMasterPassword ::
  "platform \<Rightarrow> encryption \<Rightarrow> string \<Rightarrow> string \<Rightarrow> string \<Rightarrow> bool \<times> encryption" where
  "verifyMasterPassword P e masterPassword saltHex verificationHash =
     (let s = hex_decode P saltHex;
          e' = e\<lparr>salt := Some s, masterKey := Some (deriveKey P masterPassword s)\<rparr>
      in case decrypt P e' verificationHash of
           Inr decrypted \<Rightarrow> (decrypted = verificationData, e')
         | Inl x \<Rightarrow> (False, e'))"

text \<open>
  \<open>lock()\<close>: when a key is held, \<open>crypto.randomFillSync\<close> overwrites its buffer in
  place with random bytes and then the reference is dropped. The second component of the
  result is what that buffer holds when it is let go (\<open>None\<close> when there was no key).
\<close>

definition randomFillSync :: "entropy \<Rightarrow> bytes \<Rightarrow> bytes" where
  "randomFillSync rnd buf = randomBytes rnd (length buf)"

definition lock_encryption :: "entropy \<Rightarrow> encryption \<Rightarrow> encryption \<times> bytes option" where
  "lock_encryption rnd e =
     (case masterKey e of
        Some k \<Rightarrow> (e\<lparr>masterKey := None, salt := None\<rparr>, Some (randomFillSync rnd k))
      | None \<Rightarrow> (e\<lparr>salt := None\<rparr>, None))"

definition isUnlocked :: "encryption \<Rightarrow> bool" where
  "isUnlocked e = (masterKey e \<noteq> None)"

subsection \<open>Password generation\<close>

text \<open>
  The option bag of \<open>generatePassword\<close>; \<open>None\<close> is a property the caller left out, which
  the spread \<open>{...defaults, ...options}\<close> fills from the defaults.
\<close>

record options =
  opt_length :: "int option"
  opt_uppercase :: "bool option"
  opt_lowercase :: "bool option"
  opt_numbers :: "bool option"
  opt_symbols :: "bool option"
  opt_excludeSimilar :: "bool option"
  opt_excludeAmbiguous :: "bool option"

definition or_default :: "'a \<Rightarrow> 'a option \<Rightarrow> 'a" where
  "or_default d x = (case x of None \<Rightarrow> d | Some v \<Rightarrow> v)"

definition lowercase_chars :: string where
  "lowercase_chars = ''abcdefghijklmnopqrstuvwxyz''"

definition uppercase_chars :: string where
  "uppercase_chars = ''ABCDEFGHIJKLMNOPQRSTUVWXYZ''"

definition number_chars :: string where
  "number_chars = ''0123456789''"

definition symbol_chars :: string where
  "symbol_chars = ''!@#$%^&*()_+-=[]{}|;:,.<>?''"

text \<open>The two character classes of the \<open>replace\<close> calls.\<close>

definition similar_chars :: string where
  "similar_chars = ''ilLI|1oO0''"

definition ambiguous_chars :: string where
  "ambiguous_chars = ''{}[]()/'' @ [CHR 0x5C, CHR 0x27, CHR 0x22] @ ''~,;.<>''"

definition build_charset :: "options \<Rightarrow> string" where
  "build_charset opts =
     (let c0 = [];
          c1 = (if or_default True (opt_lowercase opts) then c0 @ lowercase_chars else c0);
          c2 = (if or_default True (opt_uppercase opts) then c1 @ uppercase_chars else c1);
          c3 = (if or_default True (opt_numbers opts) then c2 @ number_chars else c2);
          c4 = (if or_default True (opt_symbols opts) then c3 @ symbol_chars else c3);
          c5 = (if or_default False (opt_excludeSimilar opts)
                then filter (\<lambda>c. c \<notin> set similar_chars) c4 else c4);
          c6 = (if or_default False (opt_excludeAmbiguous opts)
                then filter (\<lambda>c. c \<notin> set ambiguous_chars) c5 else c5)
      in c6)"

text \<open>
  \<open>crypto.randomInt(min, max)\<close> returns an integer of \<open>[min, max)\<close> and throws a
  RangeError when that range is empty. \<open>r\<close> is the raw draw; reducing it into the range
  reaches every value of the range and no other.
\<close>

definition randomInt :: "nat \<Rightarrow> nat \<Rightarrow> nat \<Rightarrow> exn + nat" where
  "randomInt r lo hi = (if lo < hi then Inr (lo + r mod (hi - lo)) else Inl RangeError)"

text \<open>The \<open>for\<close> loop: \<open>i\<close> counts up to \<open>n\<close>, \<open>rnd i\<close> is the draw of round \<open>i\<close>.\<close>

function generate_loop :: "string \<Rightarrow> (nat \<Rightarrow> nat) \<Rightarrow> nat \<Rightarrow> nat \<Rightarrow> string \<Rightarrow> exn + string" where
  "generate_loop charset rnd i n password =
     (if i < n then
        (case randomInt (rnd i) 0 (length charset) of
           Inl x \<Rightarrow> Inl x
         | Inr randomIndex \<Rightarrow> generate_loop charset rnd (i + 1) n (password @ [charset ! randomIndex]))
      else Inr password)"
  by pat_completeness auto
termination
  by (relation "measure (\<lambda>(charset, rnd, i, n, password). n - i)") auto

definition generatePassword :: "options \<Rightarrow> (nat \<Rightarrow> nat) \<Rightarrow> exn + string" where
  "generatePassword opts rnd =
     generate_loop (build_charset opts) rnd 0 (nat (or_default 16 (opt_length opts))) []"

subsection \<open>Password strength\<close>

text \<open>
  The regular expressions of \<open>checkPasswordStrength\<close> as predicates on the string.
  \<open>/[a-z]/\<close> and its siblings search for one character of a class; \<open>/^[0-9]+$/\<close> asks
  for a non-empty string of such characters only; \<open>/(.)\1{2,}/\<close> looks for a character
  followed by two more copies of itself, where \<open>.\<close> matches anything but a line
  terminator.
\<close>

definition is_lower :: "char \<Rightarrow> bool" where
  "is_lower c = (CHR ''a'' \<le> c \<and> c \<le> CHR ''z'')"

definition is_upper :: "char \<Rightarrow> bool" where
  "is_upper c = (CHR ''A'' \<le> c \<and> c \<le> CHR ''Z'')"

definition is_digit :: "char \<Rightarrow> bool" where
  "is_digit c = (CHR ''0'' \<le> c \<and> c \<le> CHR ''9'')"

definition line_terminator :: "char \<Rightarrow> bool" where
  "line_terminator c = (c = CHR 0x0A \<or> c = CHR 0x0D)"

fun repeated3 :: "string \<Rightarrow> bool" where
  "repeated3 (a # b # c # rest) =
     ((\<not> line_terminator a \<and> b = a \<and> c = a) \<or> repeated3 (b # c # rest))"
| "repeated3 _ = False"

definition only_digits :: "string \<Rightarrow> bool" where
  "only_digits s = (s \<noteq> [] \<and> list_all is_digit s)"

definition only_letters :: "string \<Rightarrow> bool" where
  "only_letters s = (s \<noteq> [] \<and> list_all (\<lambda>c. is_lower c \<or> is_upper c) s)"

record strength_result =
  score :: int
  strength :: string
  feedback :: "string list"

definition checkPasswordStrength :: "string \<Rightarrow> strength_result" where
  "checkPasswordStrength password =
     (let s0 = (0::int);
          s1 = (if length password \<ge> 8 then s0 + 1 else s0);
          s2 = (if length password \<ge> 12 then s1 + 1 else s1);
          s3 = (if length password \<ge> 16 then s2 + 1 else s2);
          s4 = (if list_ex is_lower password then s3 + 1 else s3);
          s5 = (if list_ex is_upper password then s4 + 1 else s4);
          s6 = (if list_ex is_digit password then s5 + 1 else s5);
          s7 = (if list_ex (\<lambda>c. \<not> (is_upper c \<or> is_lower c \<or> is_digit c)) password
                then s6 + 1 else s6);
          (s8, f1) = (if repeated3 password
                      then (s7 - 1, [''Avoid repeating characters'']) else (s7, []));
          (s9, f2) = (if only_digits password
                      then (s8 - 1, f1 @ [''Use more than just numbers'']) else (s8, f1));
          (s10, f3) = (if only_letters password
                       then (s9 - 1, f2 @ [''Add numbers or symbols'']) else (s9, f2));
          label = (if s10 \<ge> 7 then ''Very Strong''
                   else if s10 \<ge> 5 then ''Strong''
                   else if s10 \<ge> 3 then ''Fair''
                   else if s10 \<ge> 2 then ''Weak''
                   else ''Very Weak'')
      in \<lparr>score = max 0 (min s10 10), strength = label, feedback = f3\<rparr>)"

subsection \<open>database.js: class PasswordDatabase\<close>

text \<open>
  The four tables of \<open>createTables\<close>, each a list of rows in rowid order. A
  \<open>DATETIME\<close> is the second it names; \<open>None\<close> is SQL's \<open>NULL\<close>. The \<open>tags\<close> column
  holds JSON text written by \<open>JSON.stringify\<close>; the model keeps the value that text
  denotes, which is an array of strings or (for a row that was exported and imported
  again) a string.
\<close>

datatype tags_json = TagArray "string list" | TagText string

record settings_row =
  s_id :: nat
  s_salt :: string
  s_iterations :: nat
  s_verification_hash :: string
  s_created_at :: nat
  s_last_accessed :: "nat option"

record password_row =
  p_id :: string
  p_domain :: string
  p_username :: string
  p_encrypted_password :: string
  p_encrypted_notes :: "string option"
  p_favicon :: "string option"
  p_created_at :: nat
  p_modified_at :: nat
  p_last_used :: "nat option"
  p_use_count :: int
  p_tags :: tags_json

record history_row =
  h_id :: nat
  h_password_id :: string
  h_encrypted_old_password :: string
  h_changed_at :: nat

record note_row =
  n_id :: string
  n_title :: string
  n_encrypted_content :: string
  n_created_at :: nat
  n_modified_at :: nat

text \<open>
  \<open>history_seq\<close> is the AUTOINCREMENT counter of \<open>password_history\<close>.
  \<open>password_history.password_id\<close> is declared \<open>REFERENCES passwords(id) ON DELETE
  CASCADE\<close>. SQLite acts on that clause only when foreign keys are enforced on the
  connection; \<open>initialize\<close> sets the pragmas \<open>journal_mode\<close> and \<open>synchronous\<close> and leaves
  this one at the default of the SQLite build. \<open>foreign_keys\<close> is that setting. The
  SQLite that \<open>better-sqlite3\<close> is built with has the default on, so the connection that
  \<open>initialize\<close> opens enforces foreign keys: its database is \<open>empty_database True\<close>.
\<close>

record database =
  password_settings :: "settings_row list"
  passwords :: "password_row list"
  password_history :: "history_row list"
  history_seq :: nat
  secure_notes :: "note_row list"
  foreign_keys :: bool

text \<open>The database after \<open>createTables\<close> on a new file.\<close>

definition empty_database :: "bool \<Rightarrow> database" where
  "empty_database fk = \<lparr>password_settings = [], passwords = [], password_history = [],
     history_seq = 0, secure_notes = [], foreign_keys = fk\<rparr>"

text \<open>\<open>x || d\<close> and \<open>if (x)\<close> on a value that is a string or undefined: the empty string is falsy.\<close>

definition truthy :: "string option \<Rightarrow> bool" where
  "truthy x = (case x of None \<Rightarrow> False | Some v \<Rightarrow> v \<noteq> [])"

definition or_else :: "string option \<Rightarrow> string \<Rightarrow> string" where
  "or_else x d = (case x of None \<Rightarrow> d | Some v \<Rightarrow> if v = [] then d else v)"

definition or_null :: "string option \<Rightarrow> string option" where
  "or_null x = (if truthy x then x else None)"

text \<open>
  \<open>ORDER BY\<close>: a stable insertion sort of the rows in table order, \<open>before a b\<close> saying
  that \<open>a\<close> may stand before \<open>b\<close>. SQLite leaves the order of rows with equal keys open;
  no theorem below depends on it.
\<close>

fun insert_by :: "('a \<Rightarrow> 'a \<Rightarrow> bool) \<Rightarrow> 'a \<Rightarrow> 'a list \<Rightarrow> 'a list" where
  "insert_by before x [] = [x]"
| "insert_by before x (y # ys) =
     (if before x y then x # y # ys else y # insert_by before x ys)"

definition order_by :: "('a \<Rightarrow> 'a \<Rightarrow> bool) \<Rightarrow> 'a list \<Rightarrow> 'a list" where
  "order_by before rows = foldr (insert_by before) rows []"

text \<open>\<open>DESC\<close> on a nullable column: \<open>NULL\<close> is the smallest value and comes last.\<close>

definition null_le :: "nat option \<Rightarrow> nat option \<Rightarrow> bool" where
  "null_le a b = (case a of None \<Rightarrow> True
                  | Some x \<Rightarrow> (case b of None \<Rightarrow> False | Some y \<Rightarrow> x \<le> y))"

definition by_modified_desc :: "password_row \<Rightarrow> password_row \<Rightarrow> bool" where
  "by_modified_desc a b = (p_modified_at b \<le> p_modified_at a)"

definition by_last_used_modified_desc :: "password_row \<Rightarrow> password_row \<Rightarrow> bool" where
  "by_last_used_modified_desc a b =
     (if p_last_used a = p_last_used b then p_modified_at b \<le> p_modified_at a
      else null_le (p_last_used b) (p_last_used a))"

text \<open>
  SQLite's \<open>LIKE\<close>: \<open>%\<close> matches any run of characters, \<open>_\<close> any one character, and
  ASCII letters match without regard to case.
\<close>

definition fold_case :: "char \<Rightarrow> char" where
  "fold_case c = (if CHR ''A'' \<le> c \<and> c \<le> CHR ''Z'' then char_of (of_char c + (32::nat)) else c)"

fun like :: "string \<Rightarrow> string \<Rightarrow> bool" where
  "like [] [] = True"
| "like [] (c # s) = False"
| "like (p # ps) [] = (p = CHR ''%'' \<and> like ps [])"
| "like (p # ps) (c # s) =
     (if p = CHR ''%'' then like ps (c # s) \<or> like (p # ps) s
      else (p = CHR ''_'' \<or> fold_case p = fold_case c) \<and> like ps s)"

definition contains_pattern :: "string \<Rightarrow> string" where
  "contains_pattern q = ''%'' @ q @ ''%''"

definition hasMasterPassword :: "database \<Rightarrow> bool" where
  "hasMasterPassword db = (length (password_settings db) > 0)"

text \<open>\<open>now\<close> is \<open>CURRENT_TIMESTAMP\<close>. The table is emptied first, so the new rowid is 1.\<close>

definition saveMasterPasswordSettings :: "database \<Rightarrow> nat \<Rightarrow> string \<Rightarrow> string \<Rightarrow> nat \<Rightarrow> database" where
  "saveMasterPasswordSettings db now saltHex verificationHash iters =
     db\<lparr>password_settings :=
          [\<lparr>s_id = 1, s_salt = saltHex, s_iterations = iters,
            s_verification_hash = verificationHash, s_created_at = now,
            s_last_accessed = None\<rparr>]\<rparr>"

definition getMasterPasswordSettings :: "database \<Rightarrow> settings_row option" where
  "getMasterPasswordSettings db =
     (case password_settings db of [] \<Rightarrow> None | r # _ \<Rightarrow> Some r)"

definition updateLastAccessed :: "database \<Rightarrow> nat \<Rightarrow> database" where
  "updateLastAccessed db now =
     db\<lparr>password_settings := map (\<lambda>r. r\<lparr>s_last_accessed := Some now\<rparr>) (password_settings db)\<rparr>"

text \<open>
  The object \<open>savePassword\<close> receives: what \<open>encryptPasswordEntry\<close> builds, or a row of an
  import bundle. \<open>None\<close> is a property that is undefined.
\<close>

record encrypted_entry =
  e_id :: "string option"
  e_domain :: "string option"
  e_username :: "string option"
  e_favicon :: "string option"
  e_tags :: "tags_json option"
  e_created_at :: "nat option"
  e_modified_at :: "nat option"
  e_encrypted_password :: "string option"
  e_encrypted_notes :: "string option"

text \<open>\<open>passwordData.tags || []\<close>: an array is truthy even when empty, the empty string is not.\<close>

definition tags_or_empty :: "tags_json option \<Rightarrow> tags_json" where
  "tags_or_empty t = (case t of None \<Rightarrow> TagArray []
                      | Some (TagArray ts) \<Rightarrow> TagArray ts
                      | Some (TagText s) \<Rightarrow> if s = [] then TagArray [] else TagText s)"

text \<open>
  \<open>INSERT OR REPLACE INTO passwords\<close>. The columns \<open>domain\<close> and \<open>encrypted_password\<close>
  are \<open>NOT NULL\<close>, so an undefined value makes the statement throw. A row with the same
  primary key is deleted before the new one is inserted (and with foreign keys enforced
  its history rows go with it); the new row gets the defaults for the columns the
  statement does not name: \<open>created_at\<close> now, \<open>last_used\<close> NULL, \<open>use_count\<close> 0.
\<close>

definition savePassword :: "database \<Rightarrow> nat \<Rightarrow> string \<Rightarrow> encrypted_entry \<Rightarrow> exn + (string \<times> database)" where
  "savePassword db now uuid passwordData =
     (let id' = or_else (e_id passwordData) uuid in
      case (e_domain passwordData, e_encrypted_password passwordData) of
        (Some domain, Some encrypted_password) \<Rightarrow>
          let replaced = list_ex (\<lambda>r. p_id r = id') (passwords db);
              row = \<lparr>p_id = id', p_domain = domain,
                     p_username = or_else (e_username passwordData) [],
                     p_encrypted_password = encrypted_password,
                     p_encrypted_notes = or_null (e_encrypted_notes passwordData),
                     p_favicon = or_null (e_favicon passwordData),
                     p_created_at = now, p_modified_at = now,
                     p_last_used = None, p_use_count = 0,
                     p_tags = tags_or_empty (e_tags passwordData)\<rparr>
          in Inr (id', db\<lparr>passwords := filter (\<lambda>r. p_id r \<noteq> id') (passwords db) @ [row],
                         password_history :=
                           (if replaced \<and> foreign_keys db
                            then filter (\<lambda>h. h_password_id h \<noteq> id') (password_history db)
                            else password_history db)\<rparr>)
      | _ \<Rightarrow> Inl ConstraintViolation)"

definition getPasswords :: "database \<Rightarrow> string option \<Rightarrow> password_row list" where
  "getPasswords db domain =
     (if truthy domain
      then order_by by_last_used_modified_desc
             (filter (\<lambda>r. like (contains_pattern (the domain)) (p_domain r)) (passwords db))
      else order_by by_modified_desc (passwords db))"

definition getPassword :: "database \<Rightarrow> string \<Rightarrow> password_row option" where
  "getPassword db id' = find (\<lambda>r. p_id r = id') (passwords db)"

definition updatePasswordUsage :: "database \<Rightarrow> nat \<Rightarrow> string \<Rightarrow> database" where
  "updatePasswordUsage db now id' =
     db\<lparr>passwords := map (\<lambda>r. if p_id r = id'
                               then r\<lparr>p_last_used := Some now, p_use_count := p_use_count r + 1\<rparr>
                               else r) (passwords db)\<rparr>"

text \<open>
  \<open>addToPasswordHistory\<close> runs two statements, each committed on its own:
  \<open>history_insert\<close>, which throws when foreign keys are enforced and the credential does
  not exist, and \<open>history_prune\<close>, which keeps the rows of the credential that the
  subquery \<open>ORDER BY changed_at DESC LIMIT 5\<close> selects.
\<close>

definition by_changed_desc :: "history_row \<Rightarrow> history_row \<Rightarrow> bool" where
  "by_changed_desc a b = (h_changed_at b \<le> h_changed_at a)"

definition history_insert :: "database \<Rightarrow> nat \<Rightarrow> string \<Rightarrow> string \<Rightarrow> exn + database" where
  "history_insert db now passwordId encryptedPassword =
     (if foreign_keys db \<and> \<not> list_ex (\<lambda>r. p_id r = passwordId) (passwords db)
      then Inl ConstraintViolation
      else Inr (db\<lparr>password_history := password_history db @
                      [\<lparr>h_id = history_seq db + 1, h_password_id = passwordId,
                        h_encrypted_old_password = encryptedPassword, h_changed_at = now\<rparr>],
                    history_seq := history_seq db + 1\<rparr>))"

definition history_prune :: "database \<Rightarrow> string \<Rightarrow> database" where
  "history_prune db passwordId =
     (let keep = map h_id (take 5 (order_by by_changed_desc
                   (filter (\<lambda>h. h_password_id h = passwordId) (password_history db))))
      in db\<lparr>password_history :=
              filter (\<lambda>h. \<not> (h_password_id h = passwordId \<and> h_id h \<notin> set keep))
                (password_history db)\<rparr>)"

definition addToPasswordHistory :: "database \<Rightarrow> nat \<Rightarrow> string \<Rightarrow> string \<Rightarrow> exn + database" where
  "addToPasswordHistory db now passwordId encryptedPassword =
     (case history_insert db now passwordId encryptedPassword of
        Inl x \<Rightarrow> Inl x
      | Inr db' \<Rightarrow> Inr (history_prune db' passwordId))"

definition getPasswordHistory :: "database \<Rightarrow> string \<Rightarrow> history_row list" where
  "getPasswordHistory db passwordId =
     order_by by_changed_desc (filter (\<lambda>h. h_password_id h = passwordId) (password_history db))"

text \<open>\<open>deletePassword\<close>: the row's ciphertext goes to the history first, then the row is deleted.\<close>

definition deletePassword :: "database \<Rightarrow> nat \<Rightarrow> string \<Rightarrow> exn + database" where
  "deletePassword db now id' =
     (case (case getPassword db id' of
              Some password \<Rightarrow> addToPasswordHistory db now id' (p_encrypted_password password)
            | None \<Rightarrow> Inr db) of
        Inl x \<Rightarrow> Inl x
      | Inr db' \<Rightarrow>
          Inr (db'\<lparr>passwords := filter (\<lambda>r. p_id r \<noteq> id') (passwords db'),
                   password_history :=
                     (if foreign_keys db'
                      then filter (\<lambda>h. h_password_id h \<noteq> id') (password_history db')
                      else password_history db')\<rparr>))"

text \<open>The object \<open>saveSecureNote\<close> receives: the caller's note data, or a row of an import bundle.\<close>

record note_data =
  nd_id :: "string option"
  nd_title :: "string option"
  nd_content :: "string option"
  nd_encrypted_content :: "string option"

definition saveSecureNote :: "database \<Rightarrow> nat \<Rightarrow> string \<Rightarrow> note_data \<Rightarrow> exn + (string \<times> database)" where
  "saveSecureNote db now uuid noteData =
     (let id' = or_else (nd_id noteData) uuid in
      case (nd_title noteData, nd_encrypted_content noteData) of
        (Some title, Some encrypted_content) \<Rightarrow>
          Inr (id', db\<lparr>secure_notes := filter (\<lambda>r. n_id r \<noteq> id') (secure_notes db) @
                 [\<lparr>n_id = id', n_title = title, n_encrypted_content = encrypted_content,
                   n_created_at = now, n_modified_at = now\<rparr>]\<rparr>)
      | _ \<Rightarrow> Inl ConstraintViolation)"

definition getSecureNotes :: "database \<Rightarrow> note_row list" where
  "getSecureNotes db = order_by (\<lambda>a b. n_modified_at b \<le> n_modified_at a) (secure_notes db)"

definition deleteSecureNote :: "database \<Rightarrow> string \<Rightarrow> database" where
  "deleteSecureNote db id' = db\<lparr>secure_notes := filter (\<lambda>r. n_id r \<noteq> id') (secure_notes db)\<rparr>"

definition searchPasswords :: "database \<Rightarrow> string \<Rightarrow> password_row list" where
  "searchPasswords db query =
     order_by by_last_used_modified_desc
       (filter (\<lambda>r. like (contains_pattern query) (p_domain r)
                   \<or> like (contains_pattern query) (p_username r)) (passwords db))"

text \<open>
  \<open>getAllTags\<close>: \<open>JSON.parse\<close> gives the stored value back; \<open>forEach\<close> on a value that is
  not an array throws inside the \<open>try\<close> and the row is ignored. \<open>Array.sort\<close> orders
  strings by their code units.
\<close>

definition getAllTags :: "database \<Rightarrow> string list" where
  "getAllTags db =
     sort (remdups (concat (map (\<lambda>p. case p_tags p of TagArray ts \<Rightarrow> ts | TagText s \<Rightarrow> [])
                              (getPasswords db None))))"

text \<open>
  \<open>findDuplicatePasswords\<close>: \<open>passwordMap\<close> is a \<open>Map\<close> from the stored
  \<open>encrypted_password\<close> string to the rows that hold it, in insertion order.
\<close>

definition passwordMap_push ::
  "(string \<times> password_row list) list \<Rightarrow> password_row \<Rightarrow> (string \<times> password_row list) list" where
  "passwordMap_push m p =
     (let m' = (if map_of m (p_encrypted_password p) = None
                then m @ [(p_encrypted_password p, [])] else m)
      in map (\<lambda>(k, entries). if k = p_encrypted_password p then (k, entries @ [p]) else (k, entries)) m')"

definition findDuplicatePasswords :: "database \<Rightarrow> password_row list list" where
  "findDuplicatePasswords db =
     (let passwordMap = foldl passwordMap_push [] (getPasswords db None)
      in map snd (filter (\<lambda>(encPassword, entries). length entries > 1) passwordMap))"

record statistics =
  totalPasswords :: nat
  totalNotes :: nat
  recentlyUsed :: nat
  duplicateCount :: nat
  allTags :: "string list"

definition seven_days :: nat where "seven_days = 7 * 24 * 60 * 60"

definition getStatistics :: "database \<Rightarrow> nat \<Rightarrow> statistics" where
  "getStatistics db now =
     \<lparr>totalPasswords = length (passwords db),
      totalNotes = length (secure_notes db),
      recentlyUsed = length (filter (\<lambda>r. case p_last_used r of None \<Rightarrow> False
                                         | Some t \<Rightarrow> now < t + seven_days) (passwords db)),
      duplicateCount = length (findDuplicatePasswords db),
      allTags = getAllTags db\<rparr>"

record exported =
  x_settings :: "settings_row option"
  x_passwords :: "password_row list"
  x_notes :: "note_row list"
  x_exportDate :: nat

definition exportData :: "database \<Rightarrow> nat \<Rightarrow> exported" where
  "exportData db clock =
     \<lparr>x_settings = getMasterPasswordSettings db, x_passwords = getPasswords db None,
      x_notes = getSecureNotes db, x_exportDate = clock\<rparr>"

text \<open>
  \<open>importData\<close>: the two \<open>forEach\<close> loops; an exception leaves the loop with the rows
  saved so far in place. \<open>uuids k\<close> is what \<open>uuidv4()\<close> returns in round \<open>k\<close>.
\<close>

record import_bundle =
  b_passwords :: "encrypted_entry list option"
  b_notes :: "note_data list option"

fun import_passwords :: "database \<Rightarrow> nat \<Rightarrow> (nat \<Rightarrow> string) \<Rightarrow> nat \<Rightarrow> encrypted_entry list \<Rightarrow> exn \<times> database + database" where
  "import_passwords db now uuids k [] = Inr db"
| "import_passwords db now uuids k (p # ps) =
     (case savePassword db now (uuids k) p of
        Inl x \<Rightarrow> Inl (x, db)
      | Inr (saved, db') \<Rightarrow> import_passwords db' now uuids (k + 1) ps)"

fun import_notes :: "database \<Rightarrow> nat \<Rightarrow> (nat \<Rightarrow> string) \<Rightarrow> nat \<Rightarrow> note_data list \<Rightarrow> exn \<times> database + database" where
  "import_notes db now uuids k [] = Inr db"
| "import_notes db now uuids k (n # ns) =
     (case saveSecureNote db now (uuids k) n of
        Inl x \<Rightarrow> Inl (x, db)
      | Inr (saved, db') \<Rightarrow> import_notes db' now uuids (k + 1) ns)"

definition importData :: "database \<Rightarrow> nat \<Rightarrow> (nat \<Rightarrow> string) \<Rightarrow> import_bundle \<Rightarrow> exn \<times> database + (nat \<times> nat) \<times> database" where
  "importData db now uuids data =
     (case import_passwords db now uuids 0 (or_default [] (b_passwords data)) of
        Inl xd \<Rightarrow> Inl xd
      | Inr db1 \<Rightarrow>
          (case import_notes db1 now uuids (length (or_default [] (b_passwords data)))
                  (or_default [] (b_notes data)) of
             Inl xd \<Rightarrow> Inl xd
           | Inr db2 \<Rightarrow>
               Inr ((length (or_default [] (b_passwords data)),
                     length (or_default [] (b_notes data))), db2)))"

definition clearAllData :: "database \<Rightarrow> database" where
  "clearAllData db = db\<lparr>passwords := [], password_history := [], secure_notes := [],
                        password_settings := []\<rparr>"

subsection \<open>Entries in the clear\<close>

text \<open>What the caller passes to \<open>addPassword\<close> and \<open>updatePassword\<close>.\<close>

record password_data =
  pd_id :: "string option"
  pd_domain :: "string option"
  pd_username :: "string option"
  pd_password :: "string option"
  pd_notes :: "string option"
  pd_favicon :: "string option"
  pd_tags :: "tags_json option"
  pd_created_at :: "nat option"

text \<open>
  \<open>encryptPasswordEntry\<close>: the plaintext columns are copied, \<open>password\<close> and \<open>notes\<close>
  are encrypted when they are truthy, each with its own nonce. \<open>clock\<close> is \<open>new Date()\<close>.
\<close>

definition encrypt_field ::
  "platform \<Rightarrow> encryption \<Rightarrow> entropy \<Rightarrow> string option \<Rightarrow> exn + (string option \<times> entropy)" where
  "encrypt_field P e rnd x =
     (if truthy x then
        (case encrypt P e rnd (the x) of
           Inl ex \<Rightarrow> Inl ex
         | Inr c \<Rightarrow> Inr (Some c, skip ivLength rnd))
      else Inr (None, rnd))"

definition encryptPasswordEntry ::
  "platform \<Rightarrow> encryption \<Rightarrow> entropy \<Rightarrow> nat \<Rightarrow> password_data \<Rightarrow> exn + encrypted_entry" where
  "encryptPasswordEntry P e rnd clock passwordEntry =
     (case encrypt_field P e rnd (pd_password passwordEntry) of
        Inl ex \<Rightarrow> Inl ex
      | Inr (encrypted_password, rnd') \<Rightarrow>
          (case encrypt_field P e rnd' (pd_notes passwordEntry) of
             Inl ex \<Rightarrow> Inl ex
           | Inr (encrypted_notes, rnd'') \<Rightarrow>
               Inr \<lparr>e_id = pd_id passwordEntry, e_domain = pd_domain passwordEntry,
                    e_username = pd_username passwordEntry,
                    e_favicon = pd_favicon passwordEntry, e_tags = pd_tags passwordEntry,
                    e_created_at = pd_created_at passwordEntry, e_modified_at = Some clock,
                    e_encrypted_password = encrypted_password,
                    e_encrypted_notes = encrypted_notes\<rparr>))"

record decrypted_entry =
  d_id :: string
  d_domain :: string
  d_username :: string
  d_favicon :: "string option"
  d_tags :: tags_json
  d_created_at :: nat
  d_modified_at :: nat
  d_last_used :: "nat option"
  d_use_count :: int
  d_password :: "string option"
  d_notes :: "string option"

definition decrypt_field :: "platform \<Rightarrow> encryption \<Rightarrow> string option \<Rightarrow> exn + string option" where
  "decrypt_field P e x =
     (if truthy x then
        (case decrypt P e (the x) of Inl ex \<Rightarrow> Inl ex | Inr v \<Rightarrow> Inr (Some v))
      else Inr None)"

definition decryptPasswordEntry :: "platform \<Rightarrow> encryption \<Rightarrow> password_row \<Rightarrow> exn + decrypted_entry" where
  "decryptPasswordEntry P e encryptedEntry =
     (case decrypt_field P e (Some (p_encrypted_password encryptedEntry)) of
        Inl ex \<Rightarrow> Inl ex
      | Inr password \<Rightarrow>
          (case decrypt_field P e (p_encrypted_notes encryptedEntry) of
             Inl ex \<Rightarrow> Inl ex
           | Inr notes \<Rightarrow>
               Inr \<lparr>d_id = p_id encryptedEntry, d_domain = p_domain encryptedEntry,
                    d_username = p_username encryptedEntry,
                    d_favicon = p_favicon encryptedEntry, d_tags = p_tags encryptedEntry,
                    d_created_at = p_created_at encryptedEntry,
                    d_modified_at = p_modified_at encryptedEntry,
                    d_last_used = p_last_used encryptedEntry,
                    d_use_count = p_use_count encryptedEntry,
                    d_password = password, d_notes = notes\<rparr>))"

subsection \<open>class PasswordManager\<close>

text \<open>
  The manager's fields. \<open>autoLockTimer\<close> is the time at which the pending \<open>setTimeout\<close>
  callback is due, \<open>None\<close> when no timer is set.
\<close>

record manager =
  encryption :: encryption
  database :: database
  isLocked :: bool
  autoLockTimer :: "nat option"

definition autoLockDelay :: nat where "autoLockDelay = 15 * 60 * 1000"

definition new_manager :: "database \<Rightarrow> manager" where
  "new_manager db = \<lparr>encryption = new_encryption, database = db, isLocked = True,
                     autoLockTimer = None\<rparr>"

text \<open>
  What one call takes from its surroundings: the clock in milliseconds, the random
  bytes of \<open>crypto.randomBytes\<close>, the draws of \<open>crypto.randomInt\<close>, and the results of
  \<open>uuidv4()\<close>. SQLite's \<open>CURRENT_TIMESTAMP\<close> is the clock in whole seconds.
\<close>

record env =
  clock :: nat
  random :: entropy
  draws :: "nat \<Rightarrow> nat"
  uuids :: "nat \<Rightarrow> string"

definition current_timestamp :: "env \<Rightarrow> nat" where
  "current_timestamp E = clock E div 1000"

text \<open>The value of a successful result, \<open>{success: true, ...}\<close>.\<close>

record decrypted_note =
  dn_note :: note_row
  dn_content :: string

datatype response =
    Message string
  | Saved string string
  | Passwords "decrypted_entry list"
  | Password decrypted_entry
  | Notes "decrypted_note list"
  | Statistics statistics
  | Duplicates "decrypted_entry list list"
  | Tags "string list"
  | Exported exported
  | Imported nat nat
  | Generated string strength_result
  | Strength strength_result
  | Flag bool

type_synonym outcome = "(error + response) \<times> manager"

definition clearAutoLockTimer :: "manager \<Rightarrow> manager" where
  "clearAutoLockTimer m = m\<lparr>autoLockTimer := None\<rparr>"

definition resetAutoLockTimer :: "env \<Rightarrow> manager \<Rightarrow> manager" where
  "resetAutoLockTimer E m = (clearAutoLockTimer m)\<lparr>autoLockTimer := Some (clock E + autoLockDelay)\<rparr>"

text \<open>Methods of the manager carry the prefix \<open>pm_\<close>, that of their IPC channels.\<close>

definition pm_hasMasterPassword :: "manager \<Rightarrow> bool" where
  "pm_hasMasterPassword m = hasMasterPassword (database m)"

definition pm_setupMasterPassword :: "platform \<Rightarrow> env \<Rightarrow> string \<Rightarrow> manager \<Rightarrow> outcome" where
  "pm_setupMasterPassword P E masterPassword m =
     (let strength = checkPasswordStrength masterPassword in
      if score strength < 3 then (Inl TooWeak, m)
      else
        (case initialize P (encryption m) (random E) masterPassword None of
           Inl ex \<Rightarrow> (Inl (Thrown ex), m)
         | Inr (e', saltHex, verificationHash, iters) \<Rightarrow>
             (Inr (Message ''Master password set successfully''),
              resetAutoLockTimer E
                (m\<lparr>encryption := e',
                   database := saveMasterPasswordSettings (database m) (current_timestamp E)
                                 saltHex verificationHash iters,
                   isLocked := False\<rparr>))))"

definition pm_unlock :: "platform \<Rightarrow> env \<Rightarrow> string \<Rightarrow> manager \<Rightarrow> outcome" where
  "pm_unlock P E masterPassword m =
     (case getMasterPasswordSettings (database m) of
        None \<Rightarrow> (Inl NoMasterPassword, m)
      | Some settings \<Rightarrow>
          (let (isValid, e') = verifyMasterPassword P (encryption m) masterPassword
                                 (s_salt settings) (s_verification_hash settings)
           in if isValid
              then (Inr (Message ''Password manager unlocked''),
                    resetAutoLockTimer E
                      (m\<lparr>encryption := e', isLocked := False,
                         database := updateLastAccessed (database m) (current_timestamp E)\<rparr>))
              else (Inl IncorrectMasterPassword, m\<lparr>encryption := e'\<rparr>)))"

definition pm_lock :: "env \<Rightarrow> manager \<Rightarrow> outcome" where
  "pm_lock E m =
     (Inr (Message ''Password manager locked''),
      clearAutoLockTimer (m\<lparr>encryption := fst (lock_encryption (random E) (encryption m)),
                            isLocked := True\<rparr>))"

text \<open>The callback of \<open>setTimeout\<close> calls \<open>lock()\<close> once the delay has passed.\<close>

definition timer_fires :: "env \<Rightarrow> manager \<Rightarrow> manager" where
  "timer_fires E m =
     (case autoLockTimer m of
        None \<Rightarrow> m
      | Some due \<Rightarrow> if due \<le> clock E then snd (pm_lock E m) else m)"

definition pm_addPassword :: "platform \<Rightarrow> env \<Rightarrow> password_data \<Rightarrow> manager \<Rightarrow> outcome" where
  "pm_addPassword P E passwordData m =
     (if isLocked m then (Inl VaultLocked, m)
      else
        (let m1 = resetAutoLockTimer E m;
             passwordData' = passwordData\<lparr>pd_id := Some (or_else (pd_id passwordData) (uuids E 0))\<rparr>
         in case encryptPasswordEntry P (encryption m1) (random E) (clock E) passwordData' of
              Inl ex \<Rightarrow> (Inl (Thrown ex), m1)
            | Inr encrypted \<Rightarrow>
                (case savePassword (database m1) (current_timestamp E) (uuids E 1) encrypted of
                   Inl ex \<Rightarrow> (Inl (Thrown ex), m1)
                 | Inr (id', db') \<Rightarrow>
                     (Inr (Saved id' ''Password saved successfully''), m1\<lparr>database := db'\<rparr>))))"

text \<open>
  The \<open>map\<close> with its inner \<open>try\<close>/\<open>catch\<close> and the \<open>filter\<close> that follows: an entry
  whose decryption throws becomes \<open>null\<close> and is dropped.
\<close>

definition decrypt_entries :: "platform \<Rightarrow> encryption \<Rightarrow> password_row list \<Rightarrow> decrypted_entry list" where
  "decrypt_entries P e encrypted =
     map the (filter (\<lambda>entry. entry \<noteq> None)
       (map (\<lambda>entry. case decryptPasswordEntry P e entry of
                        Inr d \<Rightarrow> Some d
                      | Inl ex \<Rightarrow> None) encrypted))"

definition pm_getPasswords :: "platform \<Rightarrow> env \<Rightarrow> string option \<Rightarrow> manager \<Rightarrow> outcome" where
  "pm_getPasswords P E domain m =
     (if isLocked m then (Inl VaultLocked, m)
      else
        (let m1 = resetAutoLockTimer E m;
             encrypted = getPasswords (database m1) domain;
             decrypted = decrypt_entries P (encryption m1) encrypted
         in (Inr (Passwords decrypted), m1)))"

definition pm_getPassword :: "platform \<Rightarrow> env \<Rightarrow> string \<Rightarrow> manager \<Rightarrow> outcome" where
  "pm_getPassword P E id' m =
     (if isLocked m then (Inl VaultLocked, m)
      else
        (let m1 = resetAutoLockTimer E m in
         case getPassword (database m1) id' of
           None \<Rightarrow> (Inl NotFound, m1)
         | Some encrypted \<Rightarrow>
             (case decryptPasswordEntry P (encryption m1) encrypted of
                Inl ex \<Rightarrow> (Inl (Thrown ex), m1)
              | Inr decrypted \<Rightarrow>
                  (Inr (Password decrypted),
                   m1\<lparr>database := updatePasswordUsage (database m1) (current_timestamp E) id'\<rparr>))))"

text \<open>
  \<open>updatePassword\<close>: the history row is written before the new entry is encrypted and
  saved; when one of the later steps throws, the \<open>catch\<close> returns the error and the
  history row stays.
\<close>

definition pm_updatePassword :: "platform \<Rightarrow> env \<Rightarrow> string \<Rightarrow> password_data \<Rightarrow> manager \<Rightarrow> outcome" where
  "pm_updatePassword P E id' passwordData m =
     (if isLocked m then (Inl VaultLocked, m)
      else
        (let m1 = resetAutoLockTimer E m in
         case getPassword (database m1) id' of
           None \<Rightarrow> (Inl NotFound, m1)
         | Some existing \<Rightarrow>
             (case (if truthy (pd_password passwordData) \<and> p_encrypted_password existing \<noteq> []
                    then addToPasswordHistory (database m1) (current_timestamp E) id'
                           (p_encrypted_password existing)
                    else Inr (database m1)) of
                Inl ex \<Rightarrow> (Inl (Thrown ex), m1)
              | Inr db1 \<Rightarrow>
                  (let m2 = m1\<lparr>database := db1\<rparr>;
                       passwordData' = passwordData\<lparr>pd_id := Some id'\<rparr>
                   in case encryptPasswordEntry P (encryption m2) (random E) (clock E) passwordData' of
                        Inl ex \<Rightarrow> (Inl (Thrown ex), m2)
                      | Inr encrypted \<Rightarrow>
                          (case savePassword (database m2) (current_timestamp E) (uuids E 0) encrypted of
                             Inl ex \<Rightarrow> (Inl (Thrown ex), m2)
                           | Inr (saved, db2) \<Rightarrow>
                               (Inr (Message ''Password updated successfully''),
                                m2\<lparr>database := db2\<rparr>))))))"

definition pm_deletePassword :: "env \<Rightarrow> string \<Rightarrow> manager \<Rightarrow> outcome" where
  "pm_deletePassword E id' m =
     (if isLocked m then (Inl VaultLocked, m)
      else
        (let m1 = resetAutoLockTimer E m in
         case deletePassword (database m1) (current_timestamp E) id' of
           Inl ex \<Rightarrow> (Inl (Thrown ex), m1)
         | Inr db' \<Rightarrow> (Inr (Message ''Password deleted successfully''), m1\<lparr>database := db'\<rparr>)))"

definition pm_searchPasswords :: "platform \<Rightarrow> env \<Rightarrow> string \<Rightarrow> manager \<Rightarrow> outcome" where
  "pm_searchPasswords P E query m =
     (if isLocked m then (Inl VaultLocked, m)
      else
        (let m1 = resetAutoLockTimer E m;
             encrypted = searchPasswords (database m1) query;
             decrypted = decrypt_entries P (encryption m1) encrypted
         in (Inr (Passwords decrypted), m1)))"

definition pm_generatePassword :: "env \<Rightarrow> options \<Rightarrow> manager \<Rightarrow> outcome" where
  "pm_generatePassword E opts m =
     (case generatePassword opts (draws E) of
        Inl ex \<Rightarrow> (Inl (Thrown ex), m)
      | Inr password \<Rightarrow> (Inr (Generated password (checkPasswordStrength password)), m))"

definition pm_checkPasswordStrength :: "string \<Rightarrow> manager \<Rightarrow> outcome" where
  "pm_checkPasswordStrength password m = (Inr (Strength (checkPasswordStrength password)), m)"

text \<open>
  \<open>addSecureNote\<close>: inside \<open>encrypt(noteData.content)\<close>, after the check for the key,
  \<open>cipher.update\<close> throws a TypeError when the content is undefined.
\<close>

definition encrypt_content :: "platform \<Rightarrow> encryption \<Rightarrow> entropy \<Rightarrow> string option \<Rightarrow> exn + string" where
  "encrypt_content P e rnd content =
     (case masterKey e of
        None \<Rightarrow> Inl NotInitialized
      | Some key \<Rightarrow>
          (case content of
             None \<Rightarrow> Inl TypeError
           | Some plaintext \<Rightarrow> encrypt P e rnd plaintext))"

definition pm_addSecureNote :: "platform \<Rightarrow> env \<Rightarrow> note_data \<Rightarrow> manager \<Rightarrow> outcome" where
  "pm_addSecureNote P E noteData m =
     (if isLocked m then (Inl VaultLocked, m)
      else
        (let m1 = resetAutoLockTimer E m;
             noteData1 = noteData\<lparr>nd_id := Some (or_else (nd_id noteData) (uuids E 0))\<rparr>
         in case encrypt_content P (encryption m1) (random E) (nd_content noteData1) of
              Inl ex \<Rightarrow> (Inl (Thrown ex), m1)
            | Inr c \<Rightarrow>
                (case saveSecureNote (database m1) (current_timestamp E) (uuids E 1)
                        (noteData1\<lparr>nd_encrypted_content := Some c\<rparr>) of
                   Inl ex \<Rightarrow> (Inl (Thrown ex), m1)
                 | Inr (id', db') \<Rightarrow>
                     (Inr (Saved id' ''Note saved successfully''), m1\<lparr>database := db'\<rparr>))))"

text \<open>
  \<open>getSecureNotes\<close>: the callback of this \<open>map\<close> has no \<open>try\<close> of its own, so the first
  note whose decryption throws ends the \<open>map\<close> and the outer \<open>catch\<close> returns the error.
\<close>

fun decrypt_notes :: "platform \<Rightarrow> encryption \<Rightarrow> note_row list \<Rightarrow> exn + decrypted_note list" where
  "decrypt_notes P e [] = Inr []"
| "decrypt_notes P e (note # rest) =
     (case decrypt P e (n_encrypted_content note) of
        Inl ex \<Rightarrow> Inl ex
      | Inr content \<Rightarrow>
          (case decrypt_notes P e rest of
             Inl ex \<Rightarrow> Inl ex
           | Inr ds \<Rightarrow> Inr (\<lparr>dn_note = note, dn_content = content\<rparr> # ds)))"

definition pm_getSecureNotes :: "platform \<Rightarrow> env \<Rightarrow> manager \<Rightarrow> outcome" where
  "pm_getSecureNotes P E m =
     (if isLocked m then (Inl VaultLocked, m)
      else
        (let m1 = resetAutoLockTimer E m;
             encrypted = getSecureNotes (database m1)
         in case decrypt_notes P (encryption m1) encrypted of
              Inl ex \<Rightarrow> (Inl (Thrown ex), m1)
            | Inr decrypted \<Rightarrow> (Inr (Notes decrypted), m1)))"

definition pm_deleteSecureNote :: "env \<Rightarrow> string \<Rightarrow> manager \<Rightarrow> outcome" where
  "pm_deleteSecureNote E id' m =
     (if isLocked m then (Inl VaultLocked, m)
      else
        (let m1 = resetAutoLockTimer E m
         in (Inr (Message ''Note deleted successfully''),
             m1\<lparr>database := deleteSecureNote (database m1) id'\<rparr>)))"

definition pm_getStatistics :: "env \<Rightarrow> manager \<Rightarrow> outcome" where
  "pm_getStatistics E m =
     (if isLocked m then (Inl VaultLocked, m)
      else
        (let m1 = resetAutoLockTimer E m
         in (Inr (Statistics (getStatistics (database m1) (current_timestamp E))), m1)))"

definition pm_findDuplicatePasswords :: "platform \<Rightarrow> env \<Rightarrow> manager \<Rightarrow> outcome" where
  "pm_findDuplicatePasswords P E m =
     (if isLocked m then (Inl VaultLocked, m)
      else
        (let m1 = resetAutoLockTimer E m;
             duplicates = findDuplicatePasswords (database m1);
             decrypted = map (decrypt_entries P (encryption m1)) duplicates
         in (Inr (Duplicates decrypted), m1)))"

definition pm_getAllTags :: "env \<Rightarrow> manager \<Rightarrow> outcome" where
  "pm_getAllTags E m =
     (if isLocked m then (Inl VaultLocked, m)
      else
        (let m1 = resetAutoLockTimer E m
         in (Inr (Tags (getAllTags (database m1))), m1)))"

definition pm_exportData :: "env \<Rightarrow> manager \<Rightarrow> outcome" where
  "pm_exportData E m =
     (if isLocked m then (Inl VaultLocked, m)
      else
        (let m1 = resetAutoLockTimer E m
         in (Inr (Exported (exportData (database m1) (clock E))), m1)))"

definition pm_importData :: "env \<Rightarrow> import_bundle \<Rightarrow> manager \<Rightarrow> outcome" where
  "pm_importData E data m =
     (if isLocked m then (Inl VaultLocked, m)
      else
        (let m1 = resetAutoLockTimer E m in
         case importData (database m1) (current_timestamp E) (uuids E) data of
           Inl (ex, db') \<Rightarrow> (Inl (Thrown ex), m1\<lparr>database := db'\<rparr>)
         | Inr ((passwordsImported, notesImported), db') \<Rightarrow>
             (Inr (Imported passwordsImported notesImported), m1\<lparr>database := db'\<rparr>)))"

text \<open>\<open>initializeIPCHandlers\<close>: one request for each channel, and the method it calls.\<close>

datatype request =
    HasMasterPassword
  | SetupMasterPassword string
  | Unlock string
  | Lock
  | IsLocked
  | AddPassword password_data
  | GetPasswords "string option"
  | GetPassword string
  | UpdatePassword string password_data
  | DeletePassword string
  | SearchPasswords string
  | GeneratePassword options
  | CheckStrength string
  | AddNote note_data
  | GetNotes
  | DeleteNote string
  | GetStatistics
  | ExportData
  | ImportData import_bundle
  | FindDuplicates
  | GetTags

fun handle :: "platform \<Rightarrow> env \<Rightarrow> request \<Rightarrow> manager \<Rightarrow> outcome" where
  "handle P E HasMasterPassword m = (Inr (Flag (pm_hasMasterPassword m)), m)"
| "handle P E (SetupMasterPassword masterPassword) m = pm_setupMasterPassword P E masterPassword m"
| "handle P E (Unlock masterPassword) m = pm_unlock P E masterPassword m"
| "handle P E Lock m = pm_lock E m"
| "handle P E IsLocked m = (Inr (Flag (isLocked m)), m)"
| "handle P E (AddPassword passwordData) m = pm_addPassword P E passwordData m"
| "handle P E (GetPasswords domain) m = pm_getPasswords P E domain m"
| "handle P E (GetPassword id') m = pm_getPassword P E id' m"
| "handle P E (UpdatePassword id' passwordData) m = pm_updatePassword P E id' passwordData m"
| "handle P E (DeletePassword id') m = pm_deletePassword E id' m"
| "handle P E (SearchPasswords query) m = pm_searchPasswords P E query m"
| "handle P E (GeneratePassword opts) m = pm_generatePassword E opts m"
| "handle P E (CheckStrength password) m = pm_checkPasswordStrength password m"
| "handle P E (AddNote noteData) m = pm_addSecureNote P E noteData m"
| "handle P E GetNotes m = pm_getSecureNotes P E m"
| "handle P E (DeleteNote id') m = pm_deleteSecureNote E id' m"
| "handle P E GetStatistics m = pm_getStatistics E m"
| "handle P E ExportData m = pm_exportData E m"
| "handle P E (ImportData data) m = pm_importData E data m"
| "handle P E FindDuplicates m = pm_findDuplicatePasswords P E m"
| "handle P E GetTags m = pm_getAllTags E m"

text \<open>
  A run of the vault: requests arriving over IPC and firings of the auto-lock timer,
  each with the surroundings it meets.
\<close>

datatype event = Call request | Timeout

fun step :: "platform \<Rightarrow> manager \<Rightarrow> env \<times> event \<Rightarrow> manager" where
  "step P m (E, Call r) = snd (handle P E r m)"
| "step P m (E, Timeout) = timer_fires E m"

definition run :: "platform \<Rightarrow> manager \<Rightarrow> (env \<times> event) list \<Rightarrow> manager" where
  "run P m evs = foldl (step P) m evs"

section \<open>The vocabulary of the properties\<close>

subsection \<open>What the properties assume of Node\<close>

text \<open>
  AES-256-GCM under a 32-byte key and a 16-byte nonce: the tag has 16 bytes, and
  decrypting what was encrypted gives the plaintext back.
\<close>

definition gcm_contract :: "platform \<Rightarrow> bool" where
  "gcm_contract P =
     (\<forall>key iv pt. length key = keyLength \<longrightarrow> length iv = ivLength \<longrightarrow>
        length (snd (gcm_encrypt P key iv pt)) = tagLength \<and>
        gcm_decrypt P key iv (snd (gcm_encrypt P key iv pt)) (fst (gcm_encrypt P key iv pt))
          = Some pt)"

text \<open>Decoding inverts encoding, for base64 on buffers and for utf8 on strings.\<close>

definition codec_contract :: "platform \<Rightarrow> bool" where
  "codec_contract P =
     ((\<forall>buf. base64_decode P (base64_encode P buf) = buf) \<and>
      (\<forall>str. utf8_decode P (utf8_encode P str) = str))"

subsection \<open>A small platform to run the model on\<close>

text \<open>
  A stand-in for Node that meets both contracts, so that the model can be run on
  concrete inputs. Its key derivation and cipher are toys: the key repeats a byte made
  of the lengths of password and salt, the cipher adds the first bytes of key and nonce
  to every byte, the tag repeats that sum plus the length. Its codecs map a byte to the
  character of the same code.
\<close>

fun first_byte :: "bytes \<Rightarrow> 8 word" where
  "first_byte [] = 0"
| "first_byte (b # _) = b"

definition pad :: "bytes \<Rightarrow> bytes \<Rightarrow> 8 word" where
  "pad key iv = first_byte key + first_byte iv"

definition sample_platform :: platform where
  "sample_platform =
     \<lparr>pbkdf2Sync = (\<lambda>password s iters keylen.
         replicate keylen (of_nat (length password) + of_nat (length s))),
      gcm_encrypt = (\<lambda>key iv pt.
         (map (\<lambda>b. b + pad key iv) pt, replicate 16 (pad key iv + of_nat (length pt)))),
      gcm_decrypt = (\<lambda>key iv tag ct.
         if length key = 32 \<and> length iv = 16 \<and>
            tag = replicate 16 (pad key iv + of_nat (length ct))
         then Some (map (\<lambda>b. b - pad key iv) ct) else None),
      utf8_encode = map of_char,
      utf8_decode = map (\<lambda>b. char_of (unat b)),
      base64_encode = map (\<lambda>b. char_of (unat b)),
      base64_decode = map of_char,
      hex_encode = map (\<lambda>b. char_of (unat b)),
      hex_decode = map of_char\<rparr>"

definition sample_random :: entropy where
  "sample_random i = 7"

definition sample_uuids :: "nat \<Rightarrow> string" where
  "sample_uuids k = ''entry-'' @ replicate (Suc k) CHR ''x''"

definition sample_draws :: "nat \<Rightarrow> nat" where
  "sample_draws i = 7 * i + 3"

definition sample_env :: env where
  "sample_env = \<lparr>clock = 5000, random = sample_random, draws = sample_draws, uuids = sample_uuids\<rparr>"

text \<open>
  The vault after \<open>setupMasterPassword('Tr0ub4dor&3')\<close> on a new database
  (\<open>sample_vault\<close>), and after \<open>lock()\<close> (\<open>sample_locked\<close>).
\<close>

definition sample_salt :: bytes where
  "sample_salt = generateSalt sample_random"

definition sample_key :: bytes where
  "sample_key = deriveKey sample_platform ''Tr0ub4dor&3'' sample_salt"

definition sample_session :: encryption where
  "sample_session = \<lparr>masterKey = Some sample_key, salt = Some sample_salt\<rparr>"

definition sample_verifier :: string where
  "sample_verifier = base64_encode sample_platform
     (generateIV (skip saltLength sample_random) @
      snd (gcm_encrypt sample_platform sample_key (generateIV (skip saltLength sample_random))
             (utf8_encode sample_platform verificationData)) @
      fst (gcm_encrypt sample_platform sample_key (generateIV (skip saltLength sample_random))
             (utf8_encode sample_platform verificationData)))"

definition sample_settings :: settings_row where
  "sample_settings = \<lparr>s_id = 1, s_salt = hex_encode sample_platform sample_salt,
     s_iterations = iterations, s_verification_hash = sample_verifier,
     s_created_at = 5, s_last_accessed = None\<rparr>"

definition sample_vault :: manager where
  "sample_vault =
     \<lparr>encryption = sample_session,
      database = (empty_database True)\<lparr>password_settings := [sample_settings]\<rparr>,
      isLocked = False, autoLockTimer = Some (5000 + autoLockDelay)\<rparr>"

definition sample_locked :: manager where
  "sample_locked =
     \<lparr>encryption = new_encryption,
      database = (empty_database True)\<lparr>password_settings := [sample_settings]\<rparr>,
      isLocked = True, autoLockTimer = None\<rparr>"

subsection \<open>Requests that read or write the store\<close>

definition store_request :: "request \<Rightarrow> bool" where
  "store_request r =
     (case r of
        AddPassword d \<Rightarrow> True | GetPasswords f \<Rightarrow> True | GetPassword i \<Rightarrow> True
      | UpdatePassword i d \<Rightarrow> True | DeletePassword i \<Rightarrow> True | SearchPasswords q \<Rightarrow> True
      | AddNote n \<Rightarrow> True | GetNotes \<Rightarrow> True | DeleteNote i \<Rightarrow> True
      | GetStatistics \<Rightarrow> True | ExportData \<Rightarrow> True | ImportData b \<Rightarrow> True
      | FindDuplicates \<Rightarrow> True | GetTags \<Rightarrow> True
      | _ \<Rightarrow> False)"

subsection \<open>A candidate password that opens the vault\<close>

text \<open>
  The candidate opens the vault when the stored verification blob, decrypted under the
  key derived from the candidate and the stored salt, is the marker string.
\<close>

definition opens :: "platform \<Rightarrow> string \<Rightarrow> settings_row \<Rightarrow> bool" where
  "opens P candidate settings =
     (decrypt P \<lparr>masterKey = Some (deriveKey P candidate (hex_decode P (s_salt settings))),
                salt = Some (hex_decode P (s_salt settings))\<rparr>
        (s_verification_hash settings) = Inr verificationData)"

subsection \<open>The strength heuristic in the words of the specification\<close>

text \<open>
  One point for each length tier reached, one for each character class present, one
  off for each failed check, the total clamped to 0..10. A run is three equal
  characters in a row that are not line terminators.
\<close>

definition is_symbol :: "char \<Rightarrow> bool" where
  "is_symbol c = (\<not> (is_upper c \<or> is_lower c \<or> is_digit c))"

definition spec_length_points :: "string \<Rightarrow> int" where
  "spec_length_points p = int (length (filter (\<lambda>tier. tier \<le> length p) [8, 12, 16]))"

definition spec_class_points :: "string \<Rightarrow> int" where
  "spec_class_points p =
     int (length (filter (\<lambda>cls. \<exists>c \<in> set p. cls c) [is_lower, is_upper, is_digit, is_symbol]))"

definition spec_run_at :: "string \<Rightarrow> nat \<Rightarrow> bool" where
  "spec_run_at p i =
     (i + 2 < length p \<and> p ! (i + 1) = p ! i \<and> p ! (i + 2) = p ! i \<and> \<not> line_terminator (p ! i))"

definition spec_has_run :: "string \<Rightarrow> bool" where
  "spec_has_run p = list_ex (spec_run_at p) [0..<length p]"

definition spec_all_digits :: "string \<Rightarrow> bool" where
  "spec_all_digits p = (p \<noteq> [] \<and> set p \<subseteq> Collect is_digit)"

definition spec_all_letters :: "string \<Rightarrow> bool" where
  "spec_all_letters p = (p \<noteq> [] \<and> set p \<subseteq> Collect is_lower \<union> Collect is_upper)"

definition spec_penalties :: "string \<Rightarrow> int" where
  "spec_penalties p =
     int (length (filter (\<lambda>failed. failed) [spec_all_digits p, spec_all_letters p, spec_has_run p]))"

definition raw_score :: "string \<Rightarrow> int" where
  "raw_score p = spec_length_points p + spec_class_points p - spec_penalties p"

definition spec_score :: "string \<Rightarrow> int" where
  "spec_score p = max 0 (min 10 (raw_score p))"

text \<open>The five labels of the code, by score.\<close>

definition spec_label :: "int \<Rightarrow> string" where
  "spec_label s =
     (if s < 2 then ''Very Weak''
      else if s = 2 then ''Weak''
      else if s \<le> 4 then ''Fair''
      else if s \<le> 6 then ''Strong''
      else ''Very Strong'')"

definition sample_weak :: string where
  "sample_weak = ''a''"

definition sample_newlines :: string where
  "sample_newlines = [CHR 0x0A, CHR 0x0A, CHR 0x0A]"

subsection \<open>The alphabet of a generated password\<close>





subsection \<open>A stored credential\<close>

text \<open>
  The sample vault after \<open>addPassword\<close> of one credential with the password \<open>hunter2\<close>,
  the stored row and its decrypted form. \<open>sample_blob rnd s\<close> is the blob that
  \<open>encrypt\<close> makes of \<open>s\<close> under the sample key with the entropy \<open>rnd\<close>.
\<close>

definition sample_data :: password_data where
  "sample_data = \<lparr>pd_id = None, pd_domain = Some ''example.com'', pd_username = Some ''a@b.com'',
     pd_password = Some ''hunter2'', pd_notes = None, pd_favicon = None, pd_tags = None,
     pd_created_at = None\<rparr>"

definition sample_blob :: "entropy \<Rightarrow> string \<Rightarrow> string" where
  "sample_blob rnd plaintext = base64_encode sample_platform
     (generateIV rnd @
      snd (gcm_encrypt sample_platform sample_key (generateIV rnd)
             (utf8_encode sample_platform plaintext)) @
      fst (gcm_encrypt sample_platform sample_key (generateIV rnd)
             (utf8_encode sample_platform plaintext)))"

definition sample_row :: password_row where
  "sample_row = \<lparr>p_id = ''entry-x'', p_domain = ''example.com'', p_username = ''a@b.com'',
     p_encrypted_password = sample_blob sample_random ''hunter2'', p_encrypted_notes = None,
     p_favicon = None, p_created_at = 5, p_modified_at = 5, p_last_used = None,
     p_use_count = 0, p_tags = TagArray []\<rparr>"

definition sample_vault_one :: manager where
  "sample_vault_one = sample_vault\<lparr>database := (database sample_vault)\<lparr>passwords := [sample_row]\<rparr>\<rparr>"

definition sample_entry :: decrypted_entry where
  "sample_entry = \<lparr>d_id = ''entry-x'', d_domain = ''example.com'', d_username = ''a@b.com'',
     d_favicon = None, d_tags = TagArray [], d_created_at = 5, d_modified_at = 5,
     d_last_used = None, d_use_count = 0, d_password = Some ''hunter2'', d_notes = None\<rparr>"

subsection \<open>More sample states\<close>

text \<open>
  A second call environment, one second later and with other entropy, and the sample
  vault after a second credential with the same password was added in it.
\<close>

definition sample_random2 :: entropy where
  "sample_random2 i = 9"

definition sample_uuids2 :: "nat \<Rightarrow> string" where
  "sample_uuids2 k = ''other-'' @ replicate (Suc k) CHR ''y''"

definition sample_env2 :: env where
  "sample_env2 = \<lparr>clock = 6000, random = sample_random2, draws = sample_draws, uuids = sample_uuids2\<rparr>"

definition sample_data2 :: password_data where
  "sample_data2 = \<lparr>pd_id = None, pd_domain = Some ''example.org'', pd_username = Some ''a@b.com'',
     pd_password = Some ''hunter2'', pd_notes = None, pd_favicon = None, pd_tags = None,
     pd_created_at = None\<rparr>"

definition sample_row2 :: password_row where
  "sample_row2 = \<lparr>p_id = ''other-y'', p_domain = ''example.org'', p_username = ''a@b.com'',
     p_encrypted_password = sample_blob sample_random2 ''hunter2'', p_encrypted_notes = None,
     p_favicon = None, p_created_at = 6, p_modified_at = 6, p_last_used = None,
     p_use_count = 0, p_tags = TagArray []\<rparr>"

definition sample_entry2 :: decrypted_entry where
  "sample_entry2 = \<lparr>d_id = ''other-y'', d_domain = ''example.org'', d_username = ''a@b.com'',
     d_favicon = None, d_tags = TagArray [], d_created_at = 6, d_modified_at = 6,
     d_last_used = None, d_use_count = 0, d_password = Some ''hunter2'', d_notes = None\<rparr>"

definition sample_vault_two :: manager where
  "sample_vault_two =
     sample_vault\<lparr>database := (database sample_vault)\<lparr>passwords := [sample_row, sample_row2]\<rparr>,
                  autoLockTimer := Some (6000 + autoLockDelay)\<rparr>"

text \<open>
  The sample vault with one sound and one damaged row in each of \<open>passwords\<close> and
  \<open>secure_notes\<close>; the damaged rows hold a string that is no blob.
\<close>

definition sample_note :: note_row where
  "sample_note = \<lparr>n_id = ''note-1'', n_title = ''wifi'',
     n_encrypted_content = sample_blob sample_random ''secret'', n_created_at = 5,
     n_modified_at = 5\<rparr>"

definition sample_bad_note :: note_row where
  "sample_bad_note = \<lparr>n_id = ''note-2'', n_title = ''pin'',
     n_encrypted_content = ''corrupted'', n_created_at = 4, n_modified_at = 4\<rparr>"

definition sample_bad_row :: password_row where
  "sample_bad_row = \<lparr>p_id = ''entry-bad'', p_domain = ''example.net'', p_username = [],
     p_encrypted_password = ''corrupted'', p_encrypted_notes = None,
     p_favicon = None, p_created_at = 4, p_modified_at = 4, p_last_used = None,
     p_use_count = 0, p_tags = TagArray []\<rparr>"

definition sample_vault_damaged :: manager where
  "sample_vault_damaged =
     sample_vault\<lparr>database := (database sample_vault)
        \<lparr>passwords := [sample_bad_row, sample_row],
         secure_notes := [sample_bad_note, sample_note]\<rparr>\<rparr>"

subsection \<open>Password history\<close>

text \<open>
  \<open>history_of db i\<close> is the history of credential \<open>i\<close>, oldest insertion first. The
  history is well formed when the row ids are distinct and none is beyond the
  AUTOINCREMENT counter, and bounded when no credential has more than five rows.
  \<open>lastn n xs\<close> is the last \<open>n\<close> elements of \<open>xs\<close>, or all of \<open>xs\<close> when there are fewer.
\<close>

definition history_of :: "database \<Rightarrow> string \<Rightarrow> history_row list" where
  "history_of db i = filter (\<lambda>h. h_password_id h = i) (password_history db)"

definition history_wf :: "database \<Rightarrow> bool" where
  "history_wf db =
     (distinct (map h_id (password_history db)) \<and>
      list_all (\<lambda>h. h_id h \<le> history_seq db) (password_history db))"

definition history_bounded :: "database \<Rightarrow> bool" where
  "history_bounded db =
     list_all (\<lambda>h. length (history_of db (h_password_id h)) \<le> 5) (password_history db)"

definition history_ok :: "database \<Rightarrow> bool" where
  "history_ok db = (history_wf db \<and> history_bounded db)"

definition lastn :: "nat \<Rightarrow> 'a list \<Rightarrow> 'a list" where
  "lastn n xs = drop (length xs - n) xs"

text \<open>The history write of \<open>updatePassword\<close>, with its condition.\<close>

definition history_step :: "database \<Rightarrow> nat \<Rightarrow> string \<Rightarrow> password_row \<Rightarrow> password_data \<Rightarrow> exn + database" where
  "history_step db now i existing d =
     (if truthy (pd_password d) \<and> p_encrypted_password existing \<noteq> []
      then addToPasswordHistory db now i (p_encrypted_password existing)
      else Inr db)"

text \<open>
  The base64 text of a non-empty buffer is not empty. \<open>stored_password m i\<close> is the
  ciphertext the store holds for credential \<open>i\<close>, empty when there is none.
\<close>

definition blob_contract :: "platform \<Rightarrow> bool" where
  "blob_contract P = (\<forall>buf. buf \<noteq> [] \<longrightarrow> base64_encode P buf \<noteq> [])"

definition stored_password :: "manager \<Rightarrow> string \<Rightarrow> string" where
  "stored_password m i =
     (case getPassword (database m) i of Some r \<Rightarrow> p_encrypted_password r | None \<Rightarrow> [])"

text \<open>
  An update that can succeed carries a password and a domain. A series of
  \<open>updatePassword\<close> calls on credential \<open>i\<close> gives a final state and the list of the
  results returned, first call first.
\<close>

definition new_password :: "password_data \<Rightarrow> bool" where
  "new_password d = (truthy (pd_password d) \<and> pd_domain d \<noteq> None)"

fun update_all :: "platform \<Rightarrow> string \<Rightarrow> (env \<times> password_data) list \<Rightarrow> manager \<Rightarrow> manager" where
  "update_all P i [] m = m"
| "update_all P i ((E, d) # us) m = update_all P i us (snd (pm_updatePassword P E i d m))"

fun update_results :: "platform \<Rightarrow> string \<Rightarrow> (env \<times> password_data) list \<Rightarrow> manager \<Rightarrow> (error + response) list" where
  "update_results P i [] m = []"
| "update_results P i ((E, d) # us) m =
     fst (pm_updatePassword P E i d m) # update_results P i us (snd (pm_updatePassword P E i d m))"

text \<open>
  An update that names a new password and nothing else; ten full updates, one second
  apart; and the history row that the partial update leaves behind.
\<close>

definition sample_partial :: password_data where
  "sample_partial = \<lparr>pd_id = None, pd_domain = None, pd_username = None,
     pd_password = Some ''hunter3'', pd_notes = None, pd_favicon = None, pd_tags = None,
     pd_created_at = None\<rparr>"

definition sample_change :: password_data where
  "sample_change = sample_data\<lparr>pd_password := Some ''correct horse''\<rparr>"

definition sample_update :: "nat \<Rightarrow> env \<times> password_data" where
  "sample_update k = (sample_env\<lparr>clock := 1000 * (k + 6)\<rparr>, sample_change)"

definition sample_updates :: "(env \<times> password_data) list" where
  "sample_updates = map sample_update [0..<10]"

definition sample_history_row :: history_row where
  "sample_history_row = \<lparr>h_id = 1, h_password_id = ''entry-x'',
     h_encrypted_old_password = sample_blob sample_random ''hunter2'', h_changed_at = 6\<rparr>"

section \<open>Properties\<close>

subsection \<open>The sample platform\<close>

lemma first_byte_replicate: "0 < n \<Longrightarrow> first_byte (replicate n b) = b"
  by (cases n) simp_all

lemma word_of_char: "(of_char c :: 8 word) = of_nat (of_char c)"
  by (simp add: of_nat_of_char)

lemma char_byte: "char_of (unat (of_char c :: 8 word)) = c"
  by (simp add: word_of_char unat_of_nat)

lemma byte_char: "(of_char (char_of (unat (b :: 8 word))) :: 8 word) = b"
proof -
  have "unat b < 256" using unsigned_less [of b, where 'a = nat] by simp
  then have "(of_char (char_of (unat b)) :: nat) = unat b" by simp
  then have "(of_nat (of_char (char_of (unat b))) :: 8 word) = of_nat (unat b)" by (simp only:)
  then have "(of_char (char_of (unat b)) :: 8 word) = of_nat (unat b)"
    by (simp only: of_nat_of_char)
  then show ?thesis by simp
qed

lemma sample_codec: "codec_contract sample_platform"
  by (simp add: codec_contract_def sample_platform_def char_byte byte_char comp_def)

lemma sample_gcm: "gcm_contract sample_platform"
  by (simp add: gcm_contract_def sample_platform_def Let_def keyLength_def ivLength_def
        tagLength_def comp_def)

lemma sample_pbkdf2:
  "pbkdf2Sync sample_platform password s iters n
   = replicate n (of_nat (length password) + of_nat (length s))"
  by (simp add: sample_platform_def)

lemma sample_gcm_encrypt:
  "gcm_encrypt sample_platform key iv pt
   = (map (\<lambda>b. b + pad key iv) pt, replicate 16 (pad key iv + of_nat (length pt)))"
  by (simp add: sample_platform_def)

lemma sample_gcm_decrypt:
  "gcm_decrypt sample_platform key iv tag ct
   = (if length key = 32 \<and> length iv = 16 \<and> tag = replicate 16 (pad key iv + of_nat (length ct))
      then Some (map (\<lambda>b. b - pad key iv) ct) else None)"
  by (simp add: sample_platform_def)

lemma sample_base64: "base64_decode sample_platform (base64_encode sample_platform buf) = buf"
  using sample_codec by (simp add: codec_contract_def)

lemma sample_utf8: "utf8_decode sample_platform (utf8_encode sample_platform str) = str"
  using sample_codec by (simp add: codec_contract_def)

lemma sample_hex: "hex_decode sample_platform (hex_encode sample_platform buf) = buf"
  by (simp add: sample_platform_def comp_def byte_char)

lemma sample_key_value: "sample_key = replicate 32 43"
  by (simp add: sample_key_def deriveKey_def sample_pbkdf2 keyLength_def sample_salt_def
        generateSalt_def randomBytes_def saltLength_def)

text \<open>The two sample states are what the manager's own methods produce.\<close>

lemma sample_setup:
  "pm_setupMasterPassword sample_platform sample_env ''Tr0ub4dor&3''
     (new_manager (empty_database True))
   = (Inr (Message ''Master password set successfully''), sample_vault)"
  by (simp add: pm_setupMasterPassword_def checkPasswordStrength_def is_lower_def is_upper_def
        is_digit_def only_digits_def only_letters_def initialize_def encrypt_def Let_def
        sample_vault_def sample_session_def sample_key_def sample_salt_def sample_settings_def
        sample_verifier_def sample_env_def new_manager_def new_encryption_def empty_database_def
        saveMasterPasswordSettings_def current_timestamp_def resetAutoLockTimer_def
        clearAutoLockTimer_def split: prod.splits)

lemma sample_lock:
  "pm_lock sample_env sample_vault = (Inr (Message ''Password manager locked''), sample_locked)"
  by (simp add: pm_lock_def lock_encryption_def sample_vault_def sample_locked_def
        sample_session_def new_encryption_def clearAutoLockTimer_def)

lemma sample_wrong_password: "\<not> opens sample_platform ''wrong'' sample_settings"
  by (simp add: opens_def decrypt_def sample_settings_def sample_verifier_def sample_base64
        sample_hex slice_def Let_def ivLength_def tagLength_def generateIV_def
        sample_gcm_encrypt sample_gcm_decrypt sample_key_value deriveKey_def sample_pbkdf2
        keyLength_def sample_salt_def generateSalt_def randomBytes_def saltLength_def pad_def
        first_byte_replicate)

lemma sample_right_password: "opens sample_platform ''Tr0ub4dor&3'' sample_settings"
  by (simp add: opens_def decrypt_def sample_settings_def sample_verifier_def sample_base64
        sample_hex slice_def Let_def ivLength_def tagLength_def generateIV_def
        sample_gcm_encrypt sample_gcm_decrypt sample_key_value deriveKey_def sample_pbkdf2
        keyLength_def sample_salt_def generateSalt_def randomBytes_def saltLength_def pad_def
        first_byte_replicate sample_utf8 comp_def)

subsection \<open>Encryption and decryption\<close>

lemma length_generateIV: "length (generateIV rnd) = ivLength"
  by (simp add: generateIV_def randomBytes_def)

lemma encrypt_blob:
  "masterKey e = Some K \<Longrightarrow>
   encrypt P e rnd plaintext =
     Inr (base64_encode P (generateIV rnd @
            snd (gcm_encrypt P K (generateIV rnd) (utf8_encode P plaintext)) @
            fst (gcm_encrypt P K (generateIV rnd) (utf8_encode P plaintext))))"
  by (simp add: encrypt_def Let_def split: prod.splits)

lemma decrypt_blob:
  assumes gcm: "gcm_contract P" and codec: "codec_contract P"
    and key: "masterKey e = Some K" and len: "length K = keyLength"
    and iv: "length iv = ivLength"
  shows "decrypt P e (base64_encode P (iv @
            snd (gcm_encrypt P K iv (utf8_encode P plaintext)) @
            fst (gcm_encrypt P K iv (utf8_encode P plaintext)))) = Inr plaintext"
proof -
  let ?ct = "fst (gcm_encrypt P K iv (utf8_encode P plaintext))"
  let ?tag = "snd (gcm_encrypt P K iv (utf8_encode P plaintext))"
  from gcm len iv have tag: "length ?tag = tagLength"
    and dec: "gcm_decrypt P K iv ?tag ?ct = Some (utf8_encode P plaintext)"
    unfolding gcm_contract_def by blast+
  from codec have b64: "base64_decode P (base64_encode P (iv @ ?tag @ ?ct)) = iv @ ?tag @ ?ct"
    and utf8: "utf8_decode P (utf8_encode P plaintext) = plaintext"
    by (simp_all add: codec_contract_def)
  show ?thesis
    using key iv tag dec utf8
    by (simp add: decrypt_def b64 slice_def Let_def)
qed

text \<open>
  C2. With a key resident, \<open>encrypt\<close> returns a blob that decodes to the 16-byte nonce,
  then the 16-byte tag, then the ciphertext, and \<open>decrypt\<close> under the same key returns
  the plaintext that was encrypted.
\<close>

theorem encrypt_decrypt_roundtrip:
  assumes gcm: "gcm_contract P" and codec: "codec_contract P"
    and key: "masterKey e = Some K" and len: "length K = keyLength"
  shows "\<exists>iv authTag ciphertext blob.
           encrypt P e rnd plaintext = Inr blob \<and>
           base64_decode P blob = iv @ authTag @ ciphertext \<and>
           length iv = 16 \<and> length authTag = 16 \<and>
           gcm_encrypt P K iv (utf8_encode P plaintext) = (ciphertext, authTag) \<and>
           decrypt P e blob = Inr plaintext"
proof -
  define iv where "iv = generateIV rnd"
  define ct where "ct = fst (gcm_encrypt P K iv (utf8_encode P plaintext))"
  define tag where "tag = snd (gcm_encrypt P K iv (utf8_encode P plaintext))"
  define blob where "blob = base64_encode P (iv @ tag @ ct)"
  have iv16: "length iv = ivLength"
    by (simp add: iv_def length_generateIV)
  have pair: "gcm_encrypt P K iv (utf8_encode P plaintext) = (ct, tag)"
    by (simp add: ct_def tag_def)
  from gcm len iv16 have tag16: "length tag = tagLength"
    unfolding gcm_contract_def tag_def by blast
  have enc: "encrypt P e rnd plaintext = Inr blob"
    using encrypt_blob [OF key] by (simp add: blob_def iv_def ct_def tag_def)
  from codec have b64: "base64_decode P blob = iv @ tag @ ct"
    by (simp add: codec_contract_def blob_def)
  have "decrypt P e blob = Inr plaintext"
    using decrypt_blob [OF gcm codec key len iv16] by (simp add: blob_def ct_def tag_def)
  with enc b64 iv16 tag16 pair show ?thesis
    by (auto simp: ivLength_def tagLength_def)
qed

theorem encrypt_decrypt_roundtrip_witness:
  "gcm_contract sample_platform \<and> codec_contract sample_platform \<and>
   masterKey sample_session = Some sample_key \<and> length sample_key = keyLength \<and>
   (\<exists>iv authTag ciphertext blob.
      encrypt sample_platform sample_session sample_random ''hunter2'' = Inr blob \<and>
      base64_decode sample_platform blob = iv @ authTag @ ciphertext \<and>
      length iv = 16 \<and> length authTag = 16 \<and>
      gcm_encrypt sample_platform sample_key iv (utf8_encode sample_platform ''hunter2'')
        = (ciphertext, authTag) \<and>
      decrypt sample_platform sample_session blob = Inr ''hunter2'')"
proof -
  have key: "masterKey sample_session = Some sample_key"
    by (simp add: sample_session_def)
  have len: "length sample_key = keyLength"
    by (simp add: sample_key_value keyLength_def)
  from encrypt_decrypt_roundtrip [OF sample_gcm sample_codec key len, of sample_random "''hunter2''"]
  show ?thesis
    using sample_gcm sample_codec key len by blast
qed

subsection \<open>The locked vault\<close>

text \<open>
  C3. While the manager is locked, every request that reads or writes the store is
  answered with the error 'Password manager is locked', and the manager, its database
  included, is left as it was.
\<close>

theorem locked_vault_refuses:
  assumes "isLocked m" and "store_request r"
  shows "handle P E r m = (Inl VaultLocked, m)"
  using assms
  by (cases r)
     (simp_all add: store_request_def pm_addPassword_def pm_getPasswords_def pm_getPassword_def
        pm_updatePassword_def pm_deletePassword_def pm_searchPasswords_def pm_addSecureNote_def
        pm_getSecureNotes_def pm_deleteSecureNote_def pm_getStatistics_def pm_exportData_def
        pm_importData_def pm_findDuplicatePasswords_def pm_getAllTags_def)

theorem locked_vault_refuses_witness:
  "isLocked sample_locked \<and> store_request (GetPasswords None) \<and>
   handle sample_platform sample_env (GetPasswords None) sample_locked
     = (Inl VaultLocked, sample_locked)"
proof -
  have l: "isLocked sample_locked" by (simp add: sample_locked_def)
  have s: "store_request (GetPasswords None)" by (simp add: store_request_def)
  from locked_vault_refuses [OF l s] l s show ?thesis by simp
qed

subsection \<open>Unlocking\<close>

lemma decrypt_key_only: "masterKey e = masterKey e' \<Longrightarrow> decrypt P e c = decrypt P e' c"
  by (simp add: decrypt_def)

lemma verify_iff_opens:
  "fst (verifyMasterPassword P e candidate (s_salt settings) (s_verification_hash settings))
     = opens P candidate settings"
proof -
  let ?s = "hex_decode P (s_salt settings)"
  have "decrypt P (e\<lparr>salt := Some ?s, masterKey := Some (deriveKey P candidate ?s)\<rparr>)
          (s_verification_hash settings)
        = decrypt P \<lparr>masterKey = Some (deriveKey P candidate ?s), salt = Some ?s\<rparr>
            (s_verification_hash settings)"
    by (rule decrypt_key_only) simp
  then show ?thesis
    by (simp add: verifyMasterPassword_def opens_def Let_def split: sum.splits)
qed

lemma verify_state:
  "snd (verifyMasterPassword P e candidate saltHex verificationHash)
     = e\<lparr>salt := Some (hex_decode P saltHex),
         masterKey := Some (deriveKey P candidate (hex_decode P saltHex))\<rparr>"
  by (simp add: verifyMasterPassword_def Let_def split: sum.splits)

text \<open>
  C4. On a locked vault with stored settings, \<open>unlock\<close> succeeds exactly when the
  verification blob decrypts to the marker under the key derived from the candidate.
  Every other outcome (a wrong password, a damaged salt or blob) is the one error
  'Incorrect master password', and leaves the manager locked with database and timer
  untouched.
\<close>

theorem unlock_exactly_when_marker:
  assumes "getMasterPasswordSettings (database m) = Some settings" and "isLocked m"
  shows "if opens P candidate settings
         then fst (pm_unlock P E candidate m) = Inr (Message ''Password manager unlocked'') \<and>
              \<not> isLocked (snd (pm_unlock P E candidate m))
         else fst (pm_unlock P E candidate m) = Inl IncorrectMasterPassword \<and>
              isLocked (snd (pm_unlock P E candidate m)) \<and>
              database (snd (pm_unlock P E candidate m)) = database m \<and>
              autoLockTimer (snd (pm_unlock P E candidate m)) = autoLockTimer m"
  using assms verify_iff_opens [of P "encryption m" candidate settings]
  by (auto simp: pm_unlock_def Let_def resetAutoLockTimer_def clearAutoLockTimer_def
           split: prod.splits)

theorem unlock_exactly_when_marker_witness:
  "getMasterPasswordSettings (database sample_locked) = Some sample_settings \<and>
   isLocked sample_locked \<and>
   fst (pm_unlock sample_platform sample_env ''Tr0ub4dor&3'' sample_locked)
     = Inr (Message ''Password manager unlocked'') \<and>
   \<not> isLocked (snd (pm_unlock sample_platform sample_env ''Tr0ub4dor&3'' sample_locked)) \<and>
   fst (pm_unlock sample_platform sample_env ''wrong'' sample_locked)
     = Inl IncorrectMasterPassword \<and>
   isLocked (snd (pm_unlock sample_platform sample_env ''wrong'' sample_locked))"
proof -
  have s: "getMasterPasswordSettings (database sample_locked) = Some sample_settings"
    by (simp add: getMasterPasswordSettings_def sample_locked_def)
  have l: "isLocked sample_locked" by (simp add: sample_locked_def)
  from unlock_exactly_when_marker [OF s l, of sample_platform "''Tr0ub4dor&3''" sample_env]
       unlock_exactly_when_marker [OF s l, of sample_platform "''wrong''" sample_env]
       s l sample_right_password sample_wrong_password
  show ?thesis by simp
qed

subsection \<open>Password strength\<close>

lemma run_at_Cons: "spec_run_at (x # p) (Suc i) = spec_run_at p i"
  by (simp add: spec_run_at_def)

lemma list_ex_map: "list_ex Q (map f xs) = list_ex (\<lambda>i. Q (f i)) xs"
  by (induction xs) auto

lemma has_run_Cons: "spec_has_run (x # p) = (spec_run_at (x # p) 0 \<or> spec_has_run p)"
proof -
  have eq: "[0..<length (x # p)] = 0 # map Suc [0..<length p]"
    by (simp add: upt_conv_Cons map_Suc_upt del: upt_Suc)
  show ?thesis
    unfolding spec_has_run_def eq
    by (simp only: list_ex_Cons_iff list_ex_map run_at_Cons)
qed

lemma repeated3_spec: "repeated3 p = spec_has_run p"
proof (induction p rule: repeated3.induct)
  case (1 a b c rest)
  have "spec_run_at (a # b # c # rest) 0 = (\<not> line_terminator a \<and> b = a \<and> c = a)"
    by (auto simp: spec_run_at_def)
  with 1 show ?case
    by (simp add: has_run_Cons [of a])
qed (auto simp: spec_has_run_def spec_run_at_def list_ex_iff)

lemma only_digits_spec: "only_digits p = spec_all_digits p"
  by (auto simp: only_digits_def spec_all_digits_def list_all_iff)

lemma only_letters_spec: "only_letters p = spec_all_letters p"
  by (auto simp: only_letters_def spec_all_letters_def list_all_iff)

text \<open>The result of the code in terms of the unclamped total.\<close>

lemma checkPasswordStrength_raw:
  "score (checkPasswordStrength p) = max 0 (min (raw_score p) 10) \<and>
   strength (checkPasswordStrength p) =
     (if raw_score p \<ge> 7 then ''Very Strong'' else if raw_score p \<ge> 5 then ''Strong''
      else if raw_score p \<ge> 3 then ''Fair'' else if raw_score p \<ge> 2 then ''Weak''
      else ''Very Weak'')"
proof -
  have bump: "\<And>b (x::int). (if b then x + 1 else x) = x + (if b then 1 else 0)"
    by simp
  have bump': "\<And>b (x::int). (if b then x - 1 else x) = x - (if b then 1 else 0)"
    by simp
  have fst_if: "\<And>b (x::int \<times> string list) y. fst (if b then x else y) = (if b then fst x else fst y)"
    by simp
  have snd_if: "\<And>b (x::int \<times> string list) y. snd (if b then x else y) = (if b then snd x else snd y)"
    by simp
  have lp: "spec_length_points p =
      (if length p \<ge> 8 then 1 else 0) + (if length p \<ge> 12 then 1 else 0) +
      (if length p \<ge> 16 then 1 else 0)"
    by (simp add: spec_length_points_def)
  have cp: "spec_class_points p =
      (if list_ex is_lower p then 1 else 0) + (if list_ex is_upper p then 1 else 0) +
      (if list_ex is_digit p then 1 else 0) + (if list_ex is_symbol p then 1 else 0)"
    by (simp add: spec_class_points_def list_ex_iff)
  have pp: "spec_penalties p =
      (if only_digits p then 1 else 0) + (if only_letters p then 1 else 0) +
      (if repeated3 p then 1 else 0)"
    by (simp add: spec_penalties_def only_digits_spec only_letters_spec repeated3_spec)
  have sym: "list_ex (\<lambda>c. \<not> (is_upper c \<or> is_lower c \<or> is_digit c)) p = list_ex is_symbol p"
    by (simp add: list_ex_iff is_symbol_def)
  show ?thesis
    unfolding raw_score_def lp cp pp
    apply (simp only: checkPasswordStrength_def Let_def split_def sym fst_if snd_if fst_conv
             snd_conv strength_result.simps bump bump')
    apply (simp add: algebra_simps split del: if_split cong: if_cong)
    done
qed

lemma strength_weak: "checkPasswordStrength sample_weak
   = \<lparr>score = 0, strength = ''Very Weak'', feedback = [''Add numbers or symbols'']\<rparr>"
  by (simp add: sample_weak_def checkPasswordStrength_def is_lower_def is_upper_def is_digit_def
        only_digits_def only_letters_def)

text \<open>
  C8, as the claim states it, fails: the password \<open>a\<close> scores 0, which is below 3, and
  its label is 'Very Weak', not 'Weak'; three line feeds in a row score 1, with no
  point taken off for the run.
\<close>

theorem strength_labels_counterexample:
  "score (checkPasswordStrength sample_weak) < 3 \<and>
   strength (checkPasswordStrength sample_weak) \<noteq> ''Weak'' \<and>
   score (checkPasswordStrength sample_newlines) = 1"
  by (simp add: strength_weak)
     (simp add: sample_newlines_def checkPasswordStrength_def is_lower_def is_upper_def
        is_digit_def only_digits_def only_letters_def line_terminator_def)

text \<open>
  C8, amended. The score is the point total of the heuristic (a run being three equal
  characters other than line terminators), clamped to 0..10; the label is 'Very Weak'
  below 2, 'Weak' at 2, 'Fair' at 3 and 4, 'Strong' at 5 and 6, 'Very Strong' from 7;
  \<open>setupMasterPassword\<close> answers 'Password is too weak' exactly when the score is below
  3, and then changes nothing.
\<close>

theorem strength_score_and_labels:
  "score (checkPasswordStrength p) = spec_score p \<and>
   strength (checkPasswordStrength p) = spec_label (score (checkPasswordStrength p)) \<and>
   (if score (checkPasswordStrength p) < 3
    then pm_setupMasterPassword P E p m = (Inl TooWeak, m)
    else fst (pm_setupMasterPassword P E p m) \<noteq> Inl TooWeak)"
proof -
  obtain r where r: "raw_score p = r" by simp
  have a: "score (checkPasswordStrength p) = spec_score p"
    using checkPasswordStrength_raw [of p]
    by (simp add: spec_score_def min.commute)
  have b: "strength (checkPasswordStrength p) = spec_label (score (checkPasswordStrength p))"
    using checkPasswordStrength_raw [of p] unfolding r
    by (auto simp: spec_label_def min_def max_def)
  have c: "score (checkPasswordStrength p) < 3 \<Longrightarrow> pm_setupMasterPassword P E p m = (Inl TooWeak, m)"
    by (simp add: pm_setupMasterPassword_def Let_def)
  have d: "\<not> score (checkPasswordStrength p) < 3 \<Longrightarrow> fst (pm_setupMasterPassword P E p m) \<noteq> Inl TooWeak"
    by (simp add: pm_setupMasterPassword_def Let_def split: sum.splits prod.splits)
  from a b c d show ?thesis by simp
qed

theorem strength_score_and_labels_witness:
  "score (checkPasswordStrength sample_weak) = spec_score sample_weak \<and>
   strength (checkPasswordStrength sample_weak) = ''Very Weak'' \<and>
   score (checkPasswordStrength sample_weak) < 3 \<and>
   pm_setupMasterPassword sample_platform sample_env sample_weak (new_manager (empty_database True))
     = (Inl TooWeak, new_manager (empty_database True))"
  using strength_score_and_labels [of sample_weak sample_platform sample_env
          "new_manager (empty_database True)"]
  by (simp add: strength_weak)

subsection \<open>Password generation\<close>







subsection \<open>Reading one credential\<close>

lemma sample_encrypt:
  "encrypt sample_platform sample_session rnd plaintext = Inr (sample_blob rnd plaintext)"
  unfolding sample_blob_def
  by (rule encrypt_blob) (simp add: sample_session_def)

lemma sample_decrypt:
  "decrypt sample_platform sample_session (sample_blob rnd plaintext) = Inr plaintext"
  unfolding sample_blob_def
  by (rule decrypt_blob [OF sample_gcm sample_codec])
     (simp_all add: sample_session_def sample_key_value keyLength_def length_generateIV)

lemma sample_blob_nonempty: "sample_blob rnd plaintext \<noteq> []"
  by (simp add: sample_blob_def sample_platform_def generateIV_def randomBytes_def ivLength_def)

lemma sample_add:
  "pm_addPassword sample_platform sample_env sample_data sample_vault
   = (Inr (Saved ''entry-x'' ''Password saved successfully''), sample_vault_one)"
  by (simp add: pm_addPassword_def resetAutoLockTimer_def clearAutoLockTimer_def Let_def
        encryptPasswordEntry_def encrypt_field_def truthy_def sample_data_def or_else_def
        sample_vault_def sample_vault_one_def sample_encrypt sample_env_def sample_uuids_def
        savePassword_def empty_database_def sample_row_def current_timestamp_def or_null_def
        tags_or_empty_def)

lemma sample_row_decrypts:
  "decryptPasswordEntry sample_platform sample_session sample_row = Inr sample_entry"
  by (simp add: decryptPasswordEntry_def decrypt_field_def truthy_def sample_row_def
        sample_blob_nonempty sample_decrypt sample_entry_def)






subsection \<open>Key residency, duplicates and damaged rows\<close>

text \<open>
  The key is assigned before the candidate is checked, and \<open>lock\<close> is the only method
  that drops it, after overwriting its buffer.
\<close>

lemma unlock_holds_candidate_key:
  "getMasterPasswordSettings (database m) = Some settings \<Longrightarrow>
   masterKey (encryption (snd (pm_unlock P E candidate m)))
     = Some (deriveKey P candidate (hex_decode P (s_salt settings)))"
proof -
  assume s: "getMasterPasswordSettings (database m) = Some settings"
  obtain v e' where v: "verifyMasterPassword P (encryption m) candidate (s_salt settings)
                          (s_verification_hash settings) = (v, e')"
    by (cases "verifyMasterPassword P (encryption m) candidate (s_salt settings)
                 (s_verification_hash settings)")
  with verify_state [of P "encryption m" candidate "s_salt settings" "s_verification_hash settings"]
  have "masterKey e' = Some (deriveKey P candidate (hex_decode P (s_salt settings)))"
    by simp
  with s v show ?thesis
    by (simp add: pm_unlock_def Let_def resetAutoLockTimer_def clearAutoLockTimer_def)
qed

lemma lock_drops_key:
  "isLocked (snd (pm_lock E m)) \<and> masterKey (encryption (snd (pm_lock E m))) = None \<and>
   (\<forall>k. masterKey (encryption m) = Some k \<longrightarrow>
        snd (lock_encryption (random E) (encryption m)) = Some (randomBytes (random E) (length k)))"
  by (auto simp: pm_lock_def lock_encryption_def clearAutoLockTimer_def randomFillSync_def
           split: option.splits)

text \<open>
  C1 fails on the code. On the locked sample vault, \<open>unlock('wrong')\<close> is answered with
  'Incorrect master password' and the manager stays locked, but the encryption object
  now holds the key derived from the rejected password, and its own \<open>isUnlocked()\<close>
  answers true.
\<close>

theorem failed_unlock_leaves_key:
  "fst (pm_unlock sample_platform sample_env ''wrong'' sample_locked) = Inl IncorrectMasterPassword \<and>
   isLocked (snd (pm_unlock sample_platform sample_env ''wrong'' sample_locked)) \<and>
   masterKey (encryption (snd (pm_unlock sample_platform sample_env ''wrong'' sample_locked)))
     = Some (deriveKey sample_platform ''wrong'' sample_salt) \<and>
   isUnlocked (encryption (snd (pm_unlock sample_platform sample_env ''wrong'' sample_locked)))"
proof -
  have s: "getMasterPasswordSettings (database sample_locked) = Some sample_settings"
    by (simp add: getMasterPasswordSettings_def sample_locked_def)
  obtain v e' where v: "verifyMasterPassword sample_platform (encryption sample_locked) ''wrong''
                          (s_salt sample_settings) (s_verification_hash sample_settings) = (v, e')"
    by (cases "verifyMasterPassword sample_platform (encryption sample_locked) ''wrong''
                 (s_salt sample_settings) (s_verification_hash sample_settings)")
  with verify_iff_opens [of sample_platform "encryption sample_locked" "''wrong''" sample_settings]
       sample_wrong_password
  have "\<not> v" by simp
  with s v have r: "fst (pm_unlock sample_platform sample_env ''wrong'' sample_locked)
                    = Inl IncorrectMasterPassword"
          "isLocked (snd (pm_unlock sample_platform sample_env ''wrong'' sample_locked))"
    by (simp_all add: pm_unlock_def Let_def sample_locked_def)
  have k: "masterKey (encryption (snd (pm_unlock sample_platform sample_env ''wrong'' sample_locked)))
           = Some (deriveKey sample_platform ''wrong'' sample_salt)"
    using unlock_holds_candidate_key [OF s, of sample_platform sample_env "''wrong''"]
    by (simp add: sample_settings_def sample_hex)
  from r k show ?thesis by (simp add: isUnlocked_def)
qed

lemma sample_add2:
  "pm_addPassword sample_platform sample_env2 sample_data2 sample_vault_one
   = (Inr (Saved ''other-y'' ''Password saved successfully''), sample_vault_two)"
  by (simp add: pm_addPassword_def resetAutoLockTimer_def clearAutoLockTimer_def Let_def
        encryptPasswordEntry_def encrypt_field_def truthy_def sample_data2_def or_else_def
        sample_vault_def sample_vault_one_def sample_vault_two_def sample_encrypt sample_env2_def
        sample_uuids2_def savePassword_def empty_database_def sample_row_def sample_row2_def
        current_timestamp_def or_null_def tags_or_empty_def)

lemma sample_row2_decrypts:
  "decryptPasswordEntry sample_platform sample_session sample_row2 = Inr sample_entry2"
  by (simp add: decryptPasswordEntry_def decrypt_field_def truthy_def sample_row2_def
        sample_blob_nonempty sample_decrypt sample_entry2_def)

lemma sample_blobs_differ:
  "sample_blob sample_random ''hunter2'' \<noteq> sample_blob sample_random2 ''hunter2''"
proof
  assume "sample_blob sample_random ''hunter2'' = sample_blob sample_random2 ''hunter2''"
  then have "base64_decode sample_platform (sample_blob sample_random ''hunter2'')
             = base64_decode sample_platform (sample_blob sample_random2 ''hunter2'')"
    by simp
  moreover have "map sample_random [0..<16] = replicate 16 7"
    by (simp add: sample_random_def [abs_def] map_replicate_const)
  moreover have "map sample_random2 [0..<16] = replicate 16 9"
    by (simp add: sample_random2_def [abs_def] map_replicate_const)
  ultimately show False
    by (simp add: sample_blob_def sample_base64 generateIV_def randomBytes_def ivLength_def)
qed

text \<open>
  C6 fails on the code. The sample vault holds two credentials that were both added
  with the password \<open>hunter2\<close>; listing them shows the same decrypted password twice.
  Their stored blobs differ, since each encryption drew its own nonce, and
  \<open>findDuplicatePasswords\<close>, which groups by the stored blob, reports no group.
\<close>

theorem duplicates_compare_ciphertext:
  "fst (pm_getPasswords sample_platform sample_env2 None sample_vault_two)
     = Inr (Passwords [sample_entry2, sample_entry]) \<and>
   d_password sample_entry2 = d_password sample_entry \<and>
   fst (pm_findDuplicatePasswords sample_platform sample_env2 sample_vault_two)
     = Inr (Duplicates [])"
proof -
  have rows: "getPasswords (database sample_vault_two) None = [sample_row2, sample_row]"
    by (simp add: getPasswords_def truthy_def sample_vault_two_def order_by_def
          by_modified_desc_def sample_row_def sample_row2_def)
  have list: "fst (pm_getPasswords sample_platform sample_env2 None sample_vault_two)
              = Inr (Passwords [sample_entry2, sample_entry])"
    using rows
    by (simp add: pm_getPasswords_def Let_def resetAutoLockTimer_def clearAutoLockTimer_def
          decrypt_entries_def sample_vault_two_def sample_vault_def sample_row_decrypts
          sample_row2_decrypts)
  have dup: "findDuplicatePasswords (database sample_vault_two) = []"
    using sample_blobs_differ rows
    by (simp add: findDuplicatePasswords_def passwordMap_push_def Let_def sample_row_def
          sample_row2_def)
  have "fst (pm_findDuplicatePasswords sample_platform sample_env2 sample_vault_two)
        = Inr (Duplicates [])"
    using dup
    by (simp add: pm_findDuplicatePasswords_def Let_def resetAutoLockTimer_def
          clearAutoLockTimer_def sample_vault_two_def sample_vault_def)
  with list show ?thesis
    by (simp add: sample_entry_def sample_entry2_def)
qed

lemma sample_corrupted:
  "decrypt sample_platform sample_session ''corrupted'' = Inl CryptoFailure"
  by (simp add: decrypt_def sample_session_def sample_platform_def slice_def ivLength_def
        tagLength_def Let_def)

lemma decrypt_entries_Cons:
  "decrypt_entries P e (row # rows) =
     (case decryptPasswordEntry P e row of
        Inr d \<Rightarrow> d # decrypt_entries P e rows
      | Inl ex \<Rightarrow> decrypt_entries P e rows)"
  by (simp add: decrypt_entries_def split: sum.splits)

lemma decrypt_entries_isolates:
  "decryptPasswordEntry P e row = Inr d \<Longrightarrow> row \<in> set rows \<Longrightarrow> d \<in> set (decrypt_entries P e rows)"
  by (induction rows) (auto simp: decrypt_entries_Cons split: sum.splits)

text \<open>
  C7 fails on the code for notes. The sample vault holds a damaged and a sound
  credential, and a damaged and a sound note. Listing the credentials returns the sound
  one; listing the notes returns the error of the damaged note and no note at all.
\<close>

theorem notes_batch_aborts:
  "fst (pm_getPasswords sample_platform sample_env None sample_vault_damaged)
     = Inr (Passwords [sample_entry]) \<and>
   fst (pm_getSecureNotes sample_platform sample_env sample_vault_damaged)
     = Inl (Thrown CryptoFailure) \<and>
   decrypt sample_platform (encryption sample_vault_damaged) (n_encrypted_content sample_note)
     = Inr ''secret''"
proof -
  have rows: "getPasswords (database sample_vault_damaged) None = [sample_row, sample_bad_row]"
    by (simp add: getPasswords_def truthy_def sample_vault_damaged_def order_by_def
          by_modified_desc_def sample_row_def sample_bad_row_def)
  have bad: "decryptPasswordEntry sample_platform sample_session sample_bad_row = Inl CryptoFailure"
    by (simp add: decryptPasswordEntry_def decrypt_field_def truthy_def sample_bad_row_def
          sample_corrupted)
  have a: "fst (pm_getPasswords sample_platform sample_env None sample_vault_damaged)
           = Inr (Passwords [sample_entry])"
    using rows
    by (simp add: pm_getPasswords_def Let_def resetAutoLockTimer_def clearAutoLockTimer_def
          decrypt_entries_def sample_vault_damaged_def sample_vault_def sample_row_decrypts bad)
  have ns: "getSecureNotes (database sample_vault_damaged) = [sample_note, sample_bad_note]"
    by (simp add: getSecureNotes_def sample_vault_damaged_def order_by_def sample_note_def
          sample_bad_note_def)
  have b: "fst (pm_getSecureNotes sample_platform sample_env sample_vault_damaged)
           = Inl (Thrown CryptoFailure)"
    using ns
    by (simp add: pm_getSecureNotes_def Let_def resetAutoLockTimer_def clearAutoLockTimer_def
          sample_vault_damaged_def sample_vault_def sample_note_def sample_bad_note_def
          sample_decrypt sample_corrupted)
  have c: "decrypt sample_platform (encryption sample_vault_damaged) (n_encrypted_content sample_note)
           = Inr ''secret''"
    by (simp add: sample_vault_damaged_def sample_vault_def sample_note_def sample_decrypt)
  from a b c show ?thesis by simp
qed

subsection \<open>Password history\<close>

lemma bounded_iff: "history_bounded db = (\<forall>i. length (history_of db i) \<le> 5)"
proof
  assume b: "history_bounded db"
  show "\<forall>i. length (history_of db i) \<le> 5"
  proof
    fix i
    show "length (history_of db i) \<le> 5"
    proof (cases "history_of db i")
      case Nil
      then show ?thesis by simp
    next
      case (Cons h hs)
      then have "h \<in> set (history_of db i)" by simp
      then have "h \<in> set (password_history db)" "h_password_id h = i"
        by (auto simp: history_of_def)
      with b show ?thesis by (auto simp: history_bounded_def list_all_iff)
    qed
  qed
qed (simp add: history_bounded_def list_all_iff)

lemma insert_by_end: "\<forall>y \<in> set ys. \<not> before x y \<Longrightarrow> insert_by before x ys = ys @ [x]"
  by (induction ys) auto

lemma set_insert_by: "set (insert_by before x ys) = insert x (set ys)"
  by (induction ys) auto

lemma length_insert_by: "length (insert_by before x ys) = Suc (length ys)"
  by (induction ys) auto

lemma set_order_by: "set (order_by before rows) = set rows"
  by (induction rows) (auto simp: order_by_def set_insert_by)

lemma length_order_by: "length (order_by before rows) = length rows"
  by (induction rows) (auto simp: order_by_def length_insert_by)

lemma order_by_rev:
  "sorted_wrt (\<lambda>a b. h_changed_at a < h_changed_at b) rows \<Longrightarrow>
   order_by by_changed_desc rows = rev rows"
proof (induction rows)
  case Nil
  then show ?case by (simp add: order_by_def)
next
  case (Cons r rows)
  then have "order_by by_changed_desc rows = rev rows" by simp
  moreover have "\<forall>y \<in> set (rev rows). \<not> by_changed_desc r y"
    using Cons.prems by (auto simp: by_changed_desc_def)
  ultimately show ?case
    using insert_by_end [of "rev rows" by_changed_desc r]
    by (simp add: order_by_def)
qed

lemma filter_suffix:
  assumes "distinct (map f xs)"
  shows "filter (\<lambda>x. f x \<in> f ` set (drop n xs)) xs = drop n xs"
proof -
  have d: "distinct (map f (take n xs @ drop n xs))"
    using assms by simp
  then have "f ` set (take n xs) \<inter> f ` set (drop n xs) = {}"
    by (simp only: map_append distinct_append set_map)
  then have a: "filter (\<lambda>x. f x \<in> f ` set (drop n xs)) (take n xs) = []"
    by (auto simp: filter_empty_conv)
  have b: "filter (\<lambda>x. f x \<in> f ` set (drop n xs)) (drop n xs) = drop n xs"
    by (auto simp: filter_id_conv)
  have "filter (\<lambda>x. f x \<in> f ` set (drop n xs)) (take n xs @ drop n xs) = drop n xs"
    unfolding filter_append a b by simp
  then show ?thesis by simp
qed

lemma filter_keys_length:
  assumes "distinct (map f xs)"
  shows "length (filter (\<lambda>x. f x \<in> set ks) xs) \<le> length ks"
proof -
  let ?ys = "filter (\<lambda>x. f x \<in> set ks) xs"
  have "distinct (map f ?ys)"
    using assms by (simp add: distinct_map_filter)
  then have "length ?ys = card (f ` set ?ys)"
    by (metis distinct_card length_map set_map)
  also have "\<dots> \<le> card (set ks)"
    by (rule card_mono) auto
  also have "\<dots> \<le> length ks"
    by (rule card_length)
  finally show ?thesis .
qed

lemma history_of_prune_same:
  "history_of (history_prune db i) i =
     filter (\<lambda>h. h_id h \<in> set (map h_id (take 5 (order_by by_changed_desc (history_of db i)))))
       (history_of db i)"
  by (simp add: history_of_def history_prune_def Let_def conj_commute cong: conj_cong)

lemma history_of_prune_other:
  "j \<noteq> i \<Longrightarrow> history_of (history_prune db i) j = history_of db j"
  by (auto simp: history_of_def history_prune_def Let_def intro: filter_cong)

lemma history_of_insert:
  "history_insert db now i c = Inr db' \<Longrightarrow>
   history_of db' j =
     (if j = i
      then history_of db i @ [\<lparr>h_id = history_seq db + 1, h_password_id = i,
                                h_encrypted_old_password = c, h_changed_at = now\<rparr>]
      else history_of db j)"
  by (auto simp: history_of_def history_insert_def split: if_splits)

lemma wf_distinct_of: "history_wf db \<Longrightarrow> distinct (map h_id (history_of db i))"
  by (simp add: history_wf_def history_of_def distinct_map_filter)

lemma wf_insert:
  assumes wf: "history_wf db" and ins: "history_insert db now i c = Inr db'"
  shows "history_wf db'"
proof -
  let ?new = "\<lparr>h_id = history_seq db + 1, h_password_id = i,
               h_encrypted_old_password = c, h_changed_at = now\<rparr>"
  from ins have h: "password_history db' = password_history db @ [?new]"
    and s: "history_seq db' = history_seq db + 1"
    by (auto simp: history_insert_def split: if_splits)
  from wf have le: "\<forall>r \<in> set (password_history db). h_id r \<le> history_seq db"
    and d: "distinct (map h_id (password_history db))"
    by (simp_all add: history_wf_def list_all_iff)
  from le have "history_seq db + 1 \<notin> h_id ` set (password_history db)"
    by auto
  moreover from le have "\<forall>r \<in> set (password_history db). h_id r \<le> history_seq db + 1"
    by auto
  ultimately show ?thesis
    using d by (simp add: history_wf_def h s list_all_iff)
qed

lemma wf_prune: "history_wf db \<Longrightarrow> history_wf (history_prune db i)"
  by (auto simp: history_wf_def history_prune_def Let_def list_all_iff distinct_map_filter)

lemma prune_bound:
  assumes "history_wf db"
  shows "length (history_of (history_prune db i) i) \<le> 5"
proof -
  have "length (history_of (history_prune db i) i)
        \<le> length (map h_id (take 5 (order_by by_changed_desc (history_of db i))))"
    unfolding history_of_prune_same
    by (rule filter_keys_length [OF wf_distinct_of [OF assms]])
  then show ?thesis by simp
qed

lemma prune_last5:
  assumes wf: "history_wf db"
    and incr: "sorted_wrt (\<lambda>a b. h_changed_at a < h_changed_at b) (history_of db i)"
  shows "history_of (history_prune db i) i = lastn 5 (history_of db i)"
proof -
  let ?xs = "history_of db i"
  have "take 5 (order_by by_changed_desc ?xs) = rev (lastn 5 ?xs)"
    by (simp add: order_by_rev [OF incr] take_rev lastn_def)
  then have "set (map h_id (take 5 (order_by by_changed_desc ?xs)))
             = h_id ` set (drop (length ?xs - 5) ?xs)"
    by (simp add: lastn_def)
  then show ?thesis
    unfolding history_of_prune_same lastn_def
    using filter_suffix [OF wf_distinct_of [OF wf, of i], where n = "length ?xs - 5"]
    by simp
qed

lemma ok_same:
  "password_history db' = password_history db \<Longrightarrow> history_seq db' = history_seq db \<Longrightarrow>
   history_ok db' = history_ok db"
  by (simp add: history_ok_def history_wf_def history_bounded_def history_of_def)

lemma ok_filter:
  assumes ok: "history_ok db"
    and h: "password_history db' = filter (\<lambda>h. h_password_id h \<noteq> i) (password_history db)"
    and s: "history_seq db' = history_seq db"
  shows "history_ok db'"
proof -
  have of: "\<And>j. history_of db' j = (if j = i then [] else history_of db j)"
    by (auto simp: history_of_def h intro: filter_cong)
  have "history_wf db'"
    using ok by (auto simp: history_ok_def history_wf_def h s list_all_iff distinct_map_filter)
  moreover have "history_bounded db'"
    using ok unfolding history_ok_def bounded_iff of by simp
  ultimately show ?thesis by (simp add: history_ok_def)
qed

lemma ok_add:
  assumes ok: "history_ok db" and add: "addToPasswordHistory db now i c = Inr db'"
  shows "history_ok db'"
proof -
  from add obtain db1 where ins: "history_insert db now i c = Inr db1"
    and db': "db' = history_prune db1 i"
    by (auto simp: addToPasswordHistory_def split: sum.splits)
  have wf1: "history_wf db1"
    using ok ins by (auto simp: history_ok_def intro: wf_insert)
  have "\<And>j. length (history_of db' j) \<le> 5"
  proof -
    fix j
    show "length (history_of db' j) \<le> 5"
    proof (cases "j = i")
      case True
      then show ?thesis using prune_bound [OF wf1, of i] by (simp add: db')
    next
      case False
      then have "history_of db' j = history_of db j"
        using history_of_insert [OF ins, of j] by (simp add: db' history_of_prune_other)
      then show ?thesis using ok by (simp add: history_ok_def bounded_iff)
    qed
  qed
  then show ?thesis
    using wf_prune [OF wf1, of i] by (simp add: history_ok_def bounded_iff db')
qed

lemma ok_savePassword:
  assumes "history_ok db" and "savePassword db now uuid entry = Inr (saved, db')"
  shows "history_ok db'"
proof (cases "list_ex (\<lambda>r. p_id r = or_else (e_id entry) uuid) (passwords db) \<and> foreign_keys db")
  case True
  with assms(2) have "password_history db'
      = filter (\<lambda>h. h_password_id h \<noteq> or_else (e_id entry) uuid) (password_history db)"
    and "history_seq db' = history_seq db"
    by (auto simp: savePassword_def Let_def split: option.splits)
  with assms(1) show ?thesis by (rule ok_filter)
next
  case False
  with assms(2) have "password_history db' = password_history db"
    and "history_seq db' = history_seq db"
    by (auto simp: savePassword_def Let_def split: option.splits)
  with assms(1) ok_same [of db' db] show ?thesis by simp
qed

lemma ok_deletePassword:
  assumes ok: "history_ok db" and del: "deletePassword db now i = Inr db'"
  shows "history_ok db'"
proof -
  from del obtain db1 where
    one: "(case getPassword db i of
             Some password \<Rightarrow> addToPasswordHistory db now i (p_encrypted_password password)
           | None \<Rightarrow> Inr db) = Inr db1"
    and two: "db' = db1\<lparr>passwords := filter (\<lambda>r. p_id r \<noteq> i) (passwords db1),
                password_history :=
                  (if foreign_keys db1
                   then filter (\<lambda>h. h_password_id h \<noteq> i) (password_history db1)
                   else password_history db1)\<rparr>"
    by (auto simp: deletePassword_def split: sum.splits)
  have ok1: "history_ok db1"
    using one ok by (auto split: option.splits intro: ok_add)
  show ?thesis
  proof (cases "foreign_keys db1")
    case True
    then show ?thesis using ok1 by (intro ok_filter [of db1 db' i]) (simp_all add: two)
  next
    case False
    then show ?thesis using ok1 ok_same [of db' db1] by (simp add: two)
  qed
qed

lemma ok_saveSecureNote:
  assumes "history_ok db" and "saveSecureNote db now uuid n = Inr (saved, db')"
  shows "history_ok db'"
proof -
  from assms(2) have "password_history db' = password_history db"
    and "history_seq db' = history_seq db"
    by (auto simp: saveSecureNote_def Let_def split: option.splits)
  with assms(1) ok_same [of db' db] show ?thesis by simp
qed

lemma ok_import_passwords:
  "history_ok db \<Longrightarrow> history_ok (case_sum snd id (import_passwords db now ids k ps))"
proof (induction ps arbitrary: db k)
  case Nil
  then show ?case by simp
next
  case (Cons p ps)
  show ?case
  proof (cases "savePassword db now (ids k) p")
    case (Inl x)
    then show ?thesis using Cons.prems by simp
  next
    case (Inr r)
    then obtain saved db1 where r: "savePassword db now (ids k) p = Inr (saved, db1)"
      by (cases r) simp
    from ok_savePassword [OF Cons.prems r] Cons.IH [of db1 "k + 1"] r
    show ?thesis by simp
  qed
qed

lemma ok_import_notes:
  "history_ok db \<Longrightarrow> history_ok (case_sum snd id (import_notes db now ids k ns))"
proof (induction ns arbitrary: db k)
  case Nil
  then show ?case by simp
next
  case (Cons n ns)
  show ?case
  proof (cases "saveSecureNote db now (ids k) n")
    case (Inl x)
    then show ?thesis using Cons.prems by simp
  next
    case (Inr r)
    then obtain saved db1 where r: "saveSecureNote db now (ids k) n = Inr (saved, db1)"
      by (cases r) simp
    from ok_saveSecureNote [OF Cons.prems r] Cons.IH [of db1 "k + 1"] r
    show ?thesis by simp
  qed
qed

lemma ok_importData:
  assumes "history_ok db"
  shows "history_ok (case importData db now ids data of
                       Inl (ex, db') \<Rightarrow> db' | Inr (counts, db') \<Rightarrow> db')"
proof (cases "import_passwords db now ids 0 (or_default [] (b_passwords data))")
  case (Inl xd)
  with ok_import_passwords [OF assms, of now ids 0 "or_default [] (b_passwords data)"]
  show ?thesis by (cases xd) (simp add: importData_def)
next
  case (Inr db1)
  with ok_import_passwords [OF assms, of now ids 0 "or_default [] (b_passwords data)"]
  have ok1: "history_ok db1" by simp
  show ?thesis
  proof (cases "import_notes db1 now ids (length (or_default [] (b_passwords data)))
                  (or_default [] (b_notes data))")
    case (Inl xd)
    with ok_import_notes [OF ok1, of now ids "length (or_default [] (b_passwords data))"
           "or_default [] (b_notes data)"] Inr
    show ?thesis by (cases xd) (simp add: importData_def)
  next
    case (Inr db2)
    with ok_import_notes [OF ok1, of now ids "length (or_default [] (b_passwords data))"
           "or_default [] (b_notes data)"] \<open>import_passwords db now ids 0 (or_default [] (b_passwords data)) = Inr db1\<close>
    show ?thesis by (simp add: importData_def)
  qed
qed

lemma ok_settings: "history_ok (saveMasterPasswordSettings db now a b c) = history_ok db"
  by (rule ok_same) (simp_all add: saveMasterPasswordSettings_def)

lemma ok_lastAccessed: "history_ok (updateLastAccessed db now) = history_ok db"
  by (rule ok_same) (simp_all add: updateLastAccessed_def)

lemma ok_usage: "history_ok (updatePasswordUsage db now i) = history_ok db"
  by (rule ok_same) (simp_all add: updatePasswordUsage_def)

lemma ok_deleteNote: "history_ok (deleteSecureNote db i) = history_ok db"
  by (rule ok_same) (simp_all add: deleteSecureNote_def)

lemma update_unfold:
  assumes "\<not> isLocked m" and "getPassword (database m) i = Some existing"
  shows "pm_updatePassword P E i d m =
     (case history_step (database m) (current_timestamp E) i existing d of
        Inl ex \<Rightarrow> (Inl (Thrown ex), resetAutoLockTimer E m)
      | Inr dbh \<Rightarrow>
          (case encryptPasswordEntry P (encryption m) (random E) (clock E) (d\<lparr>pd_id := Some i\<rparr>) of
             Inl ex \<Rightarrow> (Inl (Thrown ex), (resetAutoLockTimer E m)\<lparr>database := dbh\<rparr>)
           | Inr encrypted \<Rightarrow>
               (case savePassword dbh (current_timestamp E) (uuids E 0) encrypted of
                  Inl ex \<Rightarrow> (Inl (Thrown ex), (resetAutoLockTimer E m)\<lparr>database := dbh\<rparr>)
                | Inr (saved, db2) \<Rightarrow>
                    (Inr (Message ''Password updated successfully''),
                     (resetAutoLockTimer E m)\<lparr>database := db2\<rparr>))))"
  using assms
  by (simp add: pm_updatePassword_def history_step_def Let_def resetAutoLockTimer_def
        clearAutoLockTimer_def split: sum.splits prod.splits)

lemma ok_history_step:
  "history_ok db \<Longrightarrow> history_step db now i existing d = Inr dbh \<Longrightarrow> history_ok dbh"
  by (auto simp: history_step_def split: if_splits intro: ok_add)

lemma ok_updatePassword:
  assumes ok: "history_ok (database m)"
  shows "history_ok (database (snd (pm_updatePassword P E i d m)))"
proof (cases "isLocked m")
  case True
  then show ?thesis using ok by (simp add: pm_updatePassword_def)
next
  case unlocked: False
  have db1: "database (resetAutoLockTimer E m) = database m"
    by (simp add: resetAutoLockTimer_def clearAutoLockTimer_def)
  show ?thesis
  proof (cases "getPassword (database m) i")
    case None
    then show ?thesis using ok unlocked db1 by (simp add: pm_updatePassword_def Let_def)
  next
    case (Some existing)
    note run = update_unfold [OF unlocked Some, of P E d]
    show ?thesis
    proof (cases "history_step (database m) (current_timestamp E) i existing d")
      case (Inl ex)
      then show ?thesis using ok db1 by (simp add: run)
    next
      case h: (Inr dbh)
      then have okh: "history_ok dbh"
        using ok by (rule ok_history_step [rotated])
      show ?thesis
      proof (cases "encryptPasswordEntry P (encryption m) (random E) (clock E) (d\<lparr>pd_id := Some i\<rparr>)")
        case (Inl ex)
        then show ?thesis using okh h by (simp add: run)
      next
        case enc: (Inr encrypted)
        show ?thesis
        proof (cases "savePassword dbh (current_timestamp E) (uuids E 0) encrypted")
          case (Inl ex)
          then show ?thesis using okh enc h by (simp add: run)
        next
          case (Inr r)
          then obtain saved db2 where
            r: "savePassword dbh (current_timestamp E) (uuids E 0) encrypted = Inr (saved, db2)"
            by (cases r) simp
          from ok_savePassword [OF okh r] r enc h show ?thesis by (simp add: run)
        qed
      qed
    qed
  qed
qed

lemma ok_handle:
  assumes ok: "history_ok (database m)"
  shows "history_ok (database (snd (handle P E r m)))"
proof (cases r)
  case (SetupMasterPassword pw)
  then show ?thesis
    using ok
    by (simp add: pm_setupMasterPassword_def Let_def resetAutoLockTimer_def
          clearAutoLockTimer_def ok_settings split: sum.splits prod.splits)
next
  case (Unlock pw)
  then show ?thesis
    using ok
    by (simp add: pm_unlock_def Let_def resetAutoLockTimer_def clearAutoLockTimer_def
          ok_lastAccessed split: option.splits prod.splits)
next
  case (AddPassword d)
  then show ?thesis
    using ok
    by (auto simp: pm_addPassword_def Let_def resetAutoLockTimer_def clearAutoLockTimer_def
             split: sum.splits dest: ok_savePassword)
next
  case (UpdatePassword i d)
  then show ?thesis
    using ok_updatePassword [OF ok] by simp
next
  case (DeletePassword i)
  then show ?thesis
    using ok
    by (auto simp: pm_deletePassword_def Let_def resetAutoLockTimer_def clearAutoLockTimer_def
             split: sum.splits dest: ok_deletePassword)
next
  case (AddNote n)
  then show ?thesis
    using ok
    by (auto simp: pm_addSecureNote_def Let_def resetAutoLockTimer_def clearAutoLockTimer_def
             split: sum.splits option.splits dest: ok_saveSecureNote)
next
  case (ImportData b)
  then show ?thesis
    using ok ok_importData [of "database m" "current_timestamp E" "uuids E" b]
    by (auto simp: pm_importData_def Let_def resetAutoLockTimer_def clearAutoLockTimer_def
             split: sum.splits prod.splits)
next
  case (GetPassword i)
  then show ?thesis
    using ok
    by (simp add: pm_getPassword_def Let_def resetAutoLockTimer_def clearAutoLockTimer_def
          ok_usage split: sum.splits option.splits)
qed (use ok in \<open>simp_all add: pm_lock_def clearAutoLockTimer_def pm_getPasswords_def Let_def
       resetAutoLockTimer_def pm_searchPasswords_def pm_generatePassword_def
       pm_checkPasswordStrength_def pm_getSecureNotes_def pm_deleteSecureNote_def
       pm_getStatistics_def pm_exportData_def pm_findDuplicatePasswords_def pm_getAllTags_def
       ok_deleteNote split: sum.splits\<close>)

lemma ok_step: "history_ok (database m) \<Longrightarrow> history_ok (database (step P m ev))"
proof (cases ev)
  case (Pair E e)
  assume ok: "history_ok (database m)"
  show ?thesis
  proof (cases e)
    case (Call r)
    with Pair ok_handle [OF ok] show ?thesis by simp
  next
    case Timeout
    with Pair ok show ?thesis
      by (simp add: timer_fires_def pm_lock_def clearAutoLockTimer_def split: option.splits)
  qed
qed

lemma ok_run: "history_ok (database m) \<Longrightarrow> history_ok (database (run P m evs))"
  unfolding run_def
  by (induction evs arbitrary: m) (simp_all add: ok_step)

lemma encrypt_nonempty:
  assumes "masterKey e = Some K" and "blob_contract P"
  shows "\<exists>c. encrypt P e rnd pt = Inr c \<and> c \<noteq> []"
proof -
  have "generateIV rnd \<noteq> []"
    using length_generateIV [of rnd] by (auto simp: ivLength_def)
  with assms(2) show ?thesis
    unfolding encrypt_blob [OF assms(1)] blob_contract_def by simp
qed

lemma encrypt_field_ok:
  assumes "masterKey e = Some K"
  shows "\<exists>c r. encrypt_field P e rnd x = Inr (c, r) \<and>
           (\<not> truthy x \<longrightarrow> c = None) \<and>
           (truthy x \<longrightarrow> blob_contract P \<longrightarrow> (\<exists>b. c = Some b \<and> b \<noteq> []))"
proof (cases "truthy x")
  case True
  then show ?thesis
    using encrypt_blob [OF assms, of P rnd "the x"] encrypt_nonempty [OF assms, of P rnd "the x"]
    by (auto simp: encrypt_field_def)
next
  case False
  then show ?thesis by (simp add: encrypt_field_def)
qed

lemma encryptPasswordEntry_ok:
  assumes "masterKey e = Some K"
  shows "\<exists>enc. encryptPasswordEntry P e rnd t d = Inr enc \<and>
           e_id enc = pd_id d \<and> e_domain enc = pd_domain d \<and>
           (truthy (pd_password d) \<longrightarrow> blob_contract P \<longrightarrow>
              (\<exists>b. e_encrypted_password enc = Some b \<and> b \<noteq> []))"
proof -
  from encrypt_field_ok [OF assms, of P rnd "pd_password d"] obtain c r where
    1: "encrypt_field P e rnd (pd_password d) = Inr (c, r)"
    and c: "truthy (pd_password d) \<longrightarrow> blob_contract P \<longrightarrow> (\<exists>b. c = Some b \<and> b \<noteq> [])"
    by blast
  from encrypt_field_ok [OF assms, of P r "pd_notes d"] obtain c' r' where
    2: "encrypt_field P e r (pd_notes d) = Inr (c', r')"
    by blast
  from 1 2 c show ?thesis
    by (simp add: encryptPasswordEntry_def)
qed

lemma find_replaced:
  "find (\<lambda>r. p_id r = i) (filter (\<lambda>r. p_id r \<noteq> i) rows @ [row]) = (if p_id row = i then Some row else None)"
  by (induction rows) auto

lemma savePassword_ok:
  assumes "e_id enc = Some i" and "i \<noteq> []" and "e_domain enc = Some dm"
    and "e_encrypted_password enc = Some b"
  shows "\<exists>row db2. savePassword db now uuid enc = Inr (i, db2) \<and>
           getPassword db2 i = Some row \<and> p_encrypted_password row = b \<and>
           foreign_keys db2 = foreign_keys db \<and> history_seq db2 = history_seq db \<and>
           (\<not> foreign_keys db \<longrightarrow> password_history db2 = password_history db)"
  using assms
  by (simp add: savePassword_def Let_def or_else_def getPassword_def find_replaced)

lemma history_step_keeps:
  "history_step db now i existing d = Inr dbh \<Longrightarrow>
   passwords dbh = passwords db \<and> foreign_keys dbh = foreign_keys db"
  by (auto simp: history_step_def addToPasswordHistory_def history_insert_def history_prune_def
        Let_def split: if_splits sum.splits)

lemma find_Some_ex: "find Q rows = Some r \<Longrightarrow> list_ex Q rows"
  by (auto simp: find_Some_iff list_ex_iff)

text \<open>
  With foreign keys enforced, the \<open>REPLACE\<close> of a successful update deletes the old row,
  and the history rows of the credential go with it.
\<close>

lemma update_with_foreign_keys:
  assumes unl: "\<not> isLocked m" and fk: "foreign_keys (database m)"
    and ex: "getPassword (database m) i = Some existing" and ine: "i \<noteq> []"
    and succ: "fst (pm_updatePassword P E i d m) = Inr r"
  shows "history_of (database (snd (pm_updatePassword P E i d m))) i = []"
proof -
  note run = update_unfold [OF unl ex, of P E d]
  from succ obtain dbh where hs: "history_step (database m) (current_timestamp E) i existing d = Inr dbh"
    unfolding run by (auto split: sum.splits)
  from succ hs obtain enc where
    enc: "encryptPasswordEntry P (encryption m) (random E) (clock E) (d\<lparr>pd_id := Some i\<rparr>) = Inr enc"
    unfolding run by (auto split: sum.splits)
  from succ hs enc obtain saved db2 where
    sv: "savePassword dbh (current_timestamp E) (uuids E 0) enc = Inr (saved, db2)"
    unfolding run by (auto split: sum.splits)
  from enc have eid: "e_id enc = Some i"
    by (auto simp: encryptPasswordEntry_def split: sum.splits prod.splits)
  from history_step_keeps [OF hs] fk ex
  have fkh: "foreign_keys dbh" and lex: "list_ex (\<lambda>r. p_id r = i) (passwords dbh)"
    by (auto simp: getPassword_def dest: find_Some_ex)
  from sv eid ine fkh lex
  have "password_history db2 = filter (\<lambda>h. h_password_id h \<noteq> i) (password_history dbh)"
    by (auto simp: savePassword_def Let_def or_else_def split: option.splits)
  then have "history_of db2 i = []"
    by (simp add: history_of_def)
  then show ?thesis
    by (simp add: run hs enc sv)
qed

lemma sample_blob_contract: "blob_contract sample_platform"
  by (simp add: blob_contract_def sample_platform_def)

text \<open>
  The history is written by statements of its own, before the update's write and apart
  from it. \<open>updatePassword\<close> with a new password and no domain on the sample vault
  fails on the \<open>NOT NULL\<close> column and leaves the credential as it was, yet the history
  has gained a row, which holds the password that is still current.
\<close>

lemma failed_update_keeps_history_row:
  "fst (pm_updatePassword sample_platform sample_env2 ''entry-x'' sample_partial sample_vault_one)
     = Inl (Thrown ConstraintViolation) \<and>
   passwords (database (snd (pm_updatePassword sample_platform sample_env2 ''entry-x''
                               sample_partial sample_vault_one)))
     = passwords (database sample_vault_one) \<and>
   password_history (database sample_vault_one) = [] \<and>
   password_history (database (snd (pm_updatePassword sample_platform sample_env2 ''entry-x''
                                      sample_partial sample_vault_one)))
     = [sample_history_row] \<and>
   h_encrypted_old_password sample_history_row = stored_password sample_vault_one ''entry-x''"
proof -
  let ?db = "database sample_vault_one"
  have unl: "\<not> isLocked sample_vault_one"
    by (simp add: sample_vault_one_def sample_vault_def)
  have ex: "getPassword ?db ''entry-x'' = Some sample_row"
    by (simp add: sample_vault_one_def getPassword_def sample_row_def)
  have t: "current_timestamp sample_env2 = 6"
    by (simp add: current_timestamp_def sample_env2_def)
  have h0: "password_history ?db = []" "history_seq ?db = 0" "passwords ?db = [sample_row]"
    by (simp_all add: sample_vault_one_def sample_vault_def empty_database_def)
  have hs: "history_step ?db 6 ''entry-x'' sample_row sample_partial
            = Inr (?db\<lparr>password_history := [sample_history_row], history_seq := 1\<rparr>)"
    using h0
    by (simp add: history_step_def truthy_def sample_partial_def sample_row_def
          sample_blob_nonempty addToPasswordHistory_def history_insert_def history_prune_def
          Let_def order_by_def sample_history_row_def)
  have key: "masterKey (encryption sample_vault_one) = Some sample_key"
    by (simp add: sample_vault_one_def sample_vault_def sample_session_def)
  from encryptPasswordEntry_ok [OF key, of sample_platform "random sample_env2" "clock sample_env2"
         "sample_partial\<lparr>pd_id := Some ''entry-x''\<rparr>"]
  obtain enc where
    enc: "encryptPasswordEntry sample_platform (encryption sample_vault_one) (random sample_env2)
            (clock sample_env2) (sample_partial\<lparr>pd_id := Some ''entry-x''\<rparr>) = Inr enc"
    and dm: "e_domain enc = None"
    by (auto simp: sample_partial_def)
  have sv: "\<And>db. savePassword db 6 (uuids sample_env2 0) enc = Inl ConstraintViolation"
    using dm by (simp add: savePassword_def Let_def)
  have run: "pm_updatePassword sample_platform sample_env2 ''entry-x'' sample_partial sample_vault_one
      = (Inl (Thrown ConstraintViolation),
         (resetAutoLockTimer sample_env2 sample_vault_one)
           \<lparr>database := ?db\<lparr>password_history := [sample_history_row], history_seq := 1\<rparr>\<rparr>)"
    by (simp add: update_unfold [OF unl ex] t hs enc sv)
  have sp: "stored_password sample_vault_one ''entry-x'' = sample_blob sample_random ''hunter2''"
    using ex by (simp add: stored_password_def sample_row_def)
  show ?thesis
    unfolding run using h0(1) sp by (simp add: sample_history_row_def)
qed

text \<open>
  One update on the store that \<open>initialize\<close> opens. With a key resident, the credential
  stored under a non-empty id with a non-empty ciphertext, and a password and a domain
  in the update, the call reports success, the credential is stored as before with a
  non-empty ciphertext, and it has no history row: the row that the call itself wrote
  for the replaced password is gone with the older ones.
\<close>

lemma update_step_enforced:
  assumes bc: "blob_contract P" and unl: "\<not> isLocked m"
    and key: "masterKey (encryption m) = Some K" and fk: "foreign_keys (database m)"
    and ine: "i \<noteq> []" and sp: "stored_password m i \<noteq> []" and np: "new_password d"
  shows "fst (pm_updatePassword P E i d m) = Inr (Message ''Password updated successfully'') \<and>
         \<not> isLocked (snd (pm_updatePassword P E i d m)) \<and>
         masterKey (encryption (snd (pm_updatePassword P E i d m))) = Some K \<and>
         foreign_keys (database (snd (pm_updatePassword P E i d m))) \<and>
         stored_password (snd (pm_updatePassword P E i d m)) i \<noteq> [] \<and>
         history_of (database (snd (pm_updatePassword P E i d m))) i = []"
proof -
  let ?db = "database m"
  let ?now = "current_timestamp E"
  from sp obtain existing where ex: "getPassword ?db i = Some existing"
    by (auto simp: stored_password_def split: option.splits)
  from ex have lex: "list_ex (\<lambda>r. p_id r = i) (passwords ?db)"
    by (auto simp: getPassword_def dest: find_Some_ex)
  from lex have "\<exists>dbh. history_step ?db ?now i existing d = Inr dbh"
    by (simp add: history_step_def addToPasswordHistory_def history_insert_def)
  then obtain dbh where hs: "history_step ?db ?now i existing d = Inr dbh"
    by blast
  from history_step_keeps [OF hs] fk have fkh: "foreign_keys dbh"
    by simp
  from np obtain dm where dm: "pd_domain d = Some dm" and tr: "truthy (pd_password d)"
    by (auto simp: new_password_def)
  from encryptPasswordEntry_ok [OF key, of P "random E" "clock E" "d\<lparr>pd_id := Some i\<rparr>"] bc tr dm
  obtain enc b where
    enc: "encryptPasswordEntry P (encryption m) (random E) (clock E) (d\<lparr>pd_id := Some i\<rparr>) = Inr enc"
    and e1: "e_id enc = Some i" and e2: "e_domain enc = Some dm"
    and e3: "e_encrypted_password enc = Some b" and b: "b \<noteq> []"
    by auto
  from savePassword_ok [OF e1 ine e2 e3, of dbh ?now "uuids E 0"] fkh
  obtain row db2 where
    sv: "savePassword dbh ?now (uuids E 0) enc = Inr (i, db2)"
    and g2: "getPassword db2 i = Some row" and r2: "p_encrypted_password row = b"
    and fk2: "foreign_keys db2"
    by auto
  have run: "pm_updatePassword P E i d m =
      (Inr (Message ''Password updated successfully''), (resetAutoLockTimer E m)\<lparr>database := db2\<rparr>)"
    by (simp add: update_unfold [OF unl ex] hs enc sv)
  have res: "fst (pm_updatePassword P E i d m) = Inr (Message ''Password updated successfully'')"
    by (simp add: run)
  have gone: "history_of (database (snd (pm_updatePassword P E i d m))) i = []"
    using unl fk ex ine res by (rule update_with_foreign_keys)
  have state: "\<not> isLocked ((resetAutoLockTimer E m)\<lparr>database := db2\<rparr>) \<and>
      masterKey (encryption ((resetAutoLockTimer E m)\<lparr>database := db2\<rparr>)) = Some K \<and>
      foreign_keys (database ((resetAutoLockTimer E m)\<lparr>database := db2\<rparr>)) \<and>
      stored_password ((resetAutoLockTimer E m)\<lparr>database := db2\<rparr>) i \<noteq> []"
    using unl key fk2 g2 r2 b
    by (simp add: stored_password_def resetAutoLockTimer_def clearAutoLockTimer_def)
  from res gone state show ?thesis
    by (simp add: run)
qed

text \<open>
  A series of such updates: every call reports success, and after the last one the
  credential has no history row.
\<close>

lemma update_all_enforced:
  assumes bc: "blob_contract P" and ine: "i \<noteq> []"
  shows "\<not> isLocked m \<Longrightarrow> masterKey (encryption m) = Some K \<Longrightarrow> foreign_keys (database m) \<Longrightarrow>
         stored_password m i \<noteq> [] \<Longrightarrow> list_all (\<lambda>u. new_password (snd u)) us \<Longrightarrow>
         update_results P i us m
           = replicate (length us) (Inr (Message ''Password updated successfully'')) \<and>
         (us \<noteq> [] \<longrightarrow> history_of (database (update_all P i us m)) i = [])"
proof (induction us arbitrary: m)
  case Nil
  then show ?case by simp
next
  case (Cons u us)
  obtain E d where u: "u = (E, d)" by (cases u)
  let ?m' = "snd (pm_updatePassword P E i d m)"
  have np: "new_password d" using Cons.prems(5) u by simp
  have rest: "list_all (\<lambda>u. new_password (snd u)) us" using Cons.prems(5) by simp
  note s = update_step_enforced [OF bc Cons.prems(1) Cons.prems(2) Cons.prems(3) ine Cons.prems(4) np,
             of E]
  from s have res: "fst (pm_updatePassword P E i d m) = Inr (Message ''Password updated successfully'')"
    and unl': "\<not> isLocked ?m'" and key': "masterKey (encryption ?m') = Some K"
    and fk': "foreign_keys (database ?m')" and sp': "stored_password ?m' i \<noteq> []"
    and gone: "history_of (database ?m') i = []"
    by simp_all
  from Cons.IH [OF unl' key' fk' sp' rest] res gone
  show ?case
    by (cases us) (simp_all add: u)
qed

text \<open>
  C5. The code does not keep the history that its comments promise (\<open>Add password to
  history (for recovery)\<close>, \<open>Keep only last 5 versions\<close>). The store is the one that
  \<open>initialize\<close> opens, which enforces foreign keys, with one credential saved by
  \<open>addPassword\<close>. Ten updates of its password, one second apart, each with a password
  and a domain, all report success, and the credential has no history row at the end,
  where five were to be kept: \<open>getPasswordHistory\<close> returns the empty list. The
  \<open>INSERT OR REPLACE\<close> of \<open>savePassword\<close> deletes the row of the credential before it
  inserts the new one, and \<open>ON DELETE CASCADE\<close> takes the history rows with it.
\<close>

theorem updates_erase_history:
  "foreign_keys (database sample_vault_one) \<and>
   length sample_updates = 10 \<and>
   update_results sample_platform ''entry-x'' sample_updates sample_vault_one
     = replicate 10 (Inr (Message ''Password updated successfully'')) \<and>
   history_of (database (update_all sample_platform ''entry-x'' sample_updates sample_vault_one))
     ''entry-x'' = [] \<and>
   getPasswordHistory (database (update_all sample_platform ''entry-x'' sample_updates
                                   sample_vault_one)) ''entry-x'' = []"
proof -
  have fk: "foreign_keys (database sample_vault_one)"
    by (simp add: sample_vault_one_def sample_vault_def empty_database_def)
  have unl: "\<not> isLocked sample_vault_one"
    by (simp add: sample_vault_one_def sample_vault_def)
  have key: "masterKey (encryption sample_vault_one) = Some sample_key"
    by (simp add: sample_vault_one_def sample_vault_def sample_session_def)
  have sp: "stored_password sample_vault_one ''entry-x'' \<noteq> []"
    by (simp add: stored_password_def getPassword_def sample_vault_one_def sample_row_def
          sample_blob_nonempty)
  have np: "list_all (\<lambda>u. new_password (snd u)) sample_updates"
    by (simp add: sample_updates_def sample_update_def list_all_iff new_password_def
          sample_change_def sample_data_def truthy_def)
  have n: "length sample_updates = 10"
    by (simp add: sample_updates_def)
  have ne: "sample_updates \<noteq> []"
    using n by auto
  from update_all_enforced [OF sample_blob_contract _ unl key fk sp np] n ne
  have res: "update_results sample_platform ''entry-x'' sample_updates sample_vault_one
               = replicate 10 (Inr (Message ''Password updated successfully''))"
    and gone: "history_of (database (update_all sample_platform ''entry-x'' sample_updates
                 sample_vault_one)) ''entry-x'' = []"
    by simp_all
  from gone have "getPasswordHistory (database (update_all sample_platform ''entry-x''
                    sample_updates sample_vault_one)) ''entry-x'' = []"
    by (simp add: getPasswordHistory_def history_of_def order_by_def)
  with fk n res gone show ?thesis
    by simp
qed

end
